theory Spec2Isabelle
  imports Complex_Main "HOL-Library.Multiset" "HOL-Library.Log_Nat"
begin

section \<open>JavaScript values and strings\<close>

text \<open>
  The fields of a work item arrive as JSON values.  Numbers are restricted to the
  integers (identifiers, priorities and criterion numbers are integers); strings are
  lists of 8-bit characters.
\<close>

datatype jsval = JUndefined | JNull | JBool bool | JNum int | JStr string

text \<open>Truthiness, as used by \<open>||\<close>, \<open>!\<close>, \<open>if (item)\<close> and \<open>filter(feature => feature)\<close>.\<close>

fun truthy :: "jsval \<Rightarrow> bool" where
  "truthy JUndefined = False"
| "truthy JNull = False"
| "truthy (JBool b) = b"
| "truthy (JNum n) = (n \<noteq> 0)"
| "truthy (JStr s) = (s \<noteq> [])"

text \<open>\<open>a || b\<close>\<close>

definition js_or :: "jsval \<Rightarrow> jsval \<Rightarrow> jsval" where
  "js_or a b = (if truthy a then a else b)"

definition digit_char :: "nat \<Rightarrow> char" where
  "digit_char d = ''0123456789'' ! d"

function nat_to_dec :: "nat \<Rightarrow> string" where
  "nat_to_dec n = (if n < 10 then [digit_char n] else nat_to_dec (n div 10) @ [digit_char (n mod 10)])"
  by pat_completeness auto
termination
  by (relation "measure id") auto

definition int_to_dec :: "int \<Rightarrow> string" where
  "int_to_dec i = (if i < 0 then CHR ''-'' # nat_to_dec (nat (- i)) else nat_to_dec (nat i))"

text \<open>\<open>v.toString()\<close> for the primitive values that have one, and \<open>`${v}`\<close>.\<close>

fun js_toString :: "jsval \<Rightarrow> string" where
  "js_toString JUndefined = ''undefined''"
| "js_toString JNull = ''null''"
| "js_toString (JBool b) = (if b then ''true'' else ''false'')"
| "js_toString (JNum n) = int_to_dec n"
| "js_toString (JStr s) = s"

definition lower_char :: "char \<Rightarrow> char" where
  "lower_char c =
     (case map_of (zip ''ABCDEFGHIJKLMNOPQRSTUVWXYZ'' ''abcdefghijklmnopqrstuvwxyz'') c of
        Some d \<Rightarrow> d
      | None \<Rightarrow> c)"

definition toLowerCase :: "string \<Rightarrow> string" where
  "toLowerCase s = map lower_char s"

text \<open>\<open>s.includes(k)\<close>: \<open>k\<close> occurs in \<open>s\<close> as a contiguous substring.\<close>

fun str_includes :: "string \<Rightarrow> string \<Rightarrow> bool" where
  "str_includes [] k = (k = [])"
| "str_includes (c # cs) k = (take (length k) (c # cs) = k \<or> str_includes cs k)"

text \<open>\<open>s.split(sep)\<close> for a one-character separator: never empty.\<close>

fun split_on :: "char \<Rightarrow> string \<Rightarrow> string list" where
  "split_on sep [] = [[]]"
| "split_on sep (c # cs) =
     (if c = sep then [] # split_on sep cs
      else (case split_on sep cs of
              [] \<Rightarrow> [[c]]
            | w # ws \<Rightarrow> (c # w) # ws))"

section \<open>Classifier\<close>

text \<open>\<open>determineScenarioType(title, description, tags)\<close>\<close>

definition determineScenarioType :: "jsval \<Rightarrow> jsval \<Rightarrow> jsval \<Rightarrow> string" where
  "determineScenarioType title description tags =
     (let content = toLowerCase (js_toString title @ '' '' @ js_toString description @ '' '' @ js_toString tags)
      in if list_ex (str_includes content) [''api'', ''service'', ''endpoint''] then ''API''
         else if list_ex (str_includes content) [''ui'', ''interface'', ''screen'', ''page''] then ''UI''
         else if list_ex (str_includes content) [''integration'', ''end-to-end'', ''e2e''] then ''Integration''
         else if list_ex (str_includes content) [''performance'', ''load'', ''stress''] then ''Performance''
         else if list_ex (str_includes content) [''security'', ''authentication'', ''authorization''] then ''Security''
         else ''Functional'')"

text \<open>\<open>mapPriority(azurePriority)\<close>\<close>

definition mapPriority :: "jsval \<Rightarrow> string" where
  "mapPriority azurePriority =
     (if azurePriority = JNull \<or> azurePriority = JUndefined then ''Medium''
      else let priorityStr = toLowerCase (js_toString azurePriority)
           in if priorityStr \<in> set [''1'', ''critical'', ''high''] then ''High''
              else if priorityStr \<in> set [''2'', ''medium'', ''normal''] then ''Medium''
              else if priorityStr \<in> set [''3'', ''4'', ''low''] then ''Low''
              else ''Medium'')"

text \<open>
  \<open>parseInt(s)\<close> with no radix: leading white space is skipped, a sign is read, a
  \<open>0x\<close> prefix selects base 16, and the longest prefix of digits is converted.
  \<open>None\<close> is \<open>NaN\<close>.
\<close>

definition dec_digit :: "char \<rightharpoonup> nat" where
  "dec_digit = map_of (zip ''0123456789'' [0 ..< 10])"

definition hex_digit :: "char \<rightharpoonup> nat" where
  "hex_digit = map_of (zip ''0123456789abcdefABCDEF'' ([0 ..< 16] @ [10 ..< 16]))"

definition parse_digits :: "nat \<Rightarrow> (char \<rightharpoonup> nat) \<Rightarrow> string \<Rightarrow> nat option" where
  "parse_digits radix digit s =
     (let ds = takeWhile (\<lambda>c. digit c \<noteq> None) s
      in if ds = [] then None
         else Some (foldl (\<lambda>acc c. acc * radix + the (digit c)) 0 ds))"

definition js_parseInt :: "string \<Rightarrow> int option" where
  "js_parseInt s =
     (let t = dropWhile (\<lambda>c. c \<in> set [CHR '' '', CHR 0x09, CHR 0x0A, CHR 0x0B, CHR 0x0C, CHR 0x0D]) s;
          neg = (t \<noteq> [] \<and> hd t = CHR ''-'');
          u = (if t \<noteq> [] \<and> (hd t = CHR ''-'' \<or> hd t = CHR ''+'') then tl t else t);
          m = (if take 2 u = ''0x'' \<or> take 2 u = ''0X'' then parse_digits 16 hex_digit (drop 2 u)
               else parse_digits 10 dec_digit u)
      in map_option (\<lambda>n. if neg then - int n else int n) m)"

section \<open>Data Source Gateway\<close>

text \<open>
  A request of the HTTP client either fails (\<open>Inl\<close>: the promise rejects) or delivers the
  work item of the response body.  The two URLs the generator builds are the two
  requests; a work item id that \<open>parseInt\<close> could not read is \<open>NaN\<close> in the URL
  (\<open>None\<close>).  The \<open>id\<close> of a reply is read without any check or default: it is
  whatever value the reply holds, \<open>undefined\<close> when it holds none.
\<close>

datatype failure = NetworkError | HttpStatus nat

datatype request = GetWorkItem "int option" | GetWorkItemRelations int

record relation =
  rel_rel :: "string option"
  rel_url :: "string option"

record work_item =
  wi_id :: jsval
  wi_fields :: "(string \<rightharpoonup> jsval) option"
  wi_relations :: "relation list option"

text \<open>
  The environment of the generator: the HTTP client and the HTML parser (cheerio), which
  gives, for an HTML value, \<open>$(element).text().trim()\<close> of every \<open>li\<close> element in
  document order.
\<close>

record env =
  axios_get :: "request \<Rightarrow> failure + work_item"
  li_texts :: "jsval \<Rightarrow> string list"

text \<open>\<open>fields[name]\<close>, with \<open>workItemData.fields || {}\<close>\<close>

definition field :: "work_item \<Rightarrow> string \<Rightarrow> jsval" where
  "field workItemData name =
     (case wi_fields workItemData of
        None \<Rightarrow> JUndefined
      | Some fs \<Rightarrow> (case fs name of None \<Rightarrow> JUndefined | Some v \<Rightarrow> v))"

text \<open>\<open>makeApiRequest(url)\<close>: every failure of the request is caught and becomes \<open>null\<close>.\<close>

definition makeApiRequest :: "env \<Rightarrow> request \<Rightarrow> work_item option" where
  "makeApiRequest e req = (case axios_get e req of Inl error \<Rightarrow> None | Inr data \<Rightarrow> Some data)"

text \<open>
  \<open>parseAcceptanceCriterias(htmlString)\<close>: the object \<open>criteria\<close>, as the list of its
  entries in insertion order.
\<close>

definition parseAcceptanceCriterias :: "env \<Rightarrow> jsval \<Rightarrow> (nat \<times> string) list" where
  "parseAcceptanceCriterias e htmlString =
     (if \<not> truthy htmlString then []
      else filter (\<lambda>(k, text). text \<noteq> [])
             (map (\<lambda>(index, text). (index + 1, text)) (enumerate 0 (li_texts e htmlString))))"

text \<open>\<open>Object.entries(obj)\<close> of an object with integer keys: ascending keys.\<close>

definition Object_entries :: "(nat \<times> string) list \<Rightarrow> (nat \<times> string) list" where
  "Object_entries obj = sort_key fst obj"

record user_story =
  us_id :: jsval
  us_title :: jsval
  us_description :: jsval
  us_state :: jsval
  us_priority :: jsval
  us_feature :: jsval
  us_tags :: jsval
  us_acceptanceCriteria :: "(nat \<times> string) list"

text \<open>
  \<open>fetchUserStory(userStoryId)\<close>.  \<open>areaPath.split\<close> on a truthy value that is not a
  string throws a TypeError, which the \<open>catch\<close> turns into \<open>null\<close>.
\<close>

definition fetchUserStory :: "env \<Rightarrow> int \<Rightarrow> user_story option" where
  "fetchUserStory e userStoryId =
     (case makeApiRequest e (GetWorkItem (Some userStoryId)) of
        None \<Rightarrow> None
      | Some workItemData \<Rightarrow>
          if field workItemData ''System.WorkItemType'' \<noteq> JStr ''User Story'' then None
          else
            let areaPath = js_or (field workItemData ''System.AreaPath'') (JStr '''');
                feature = (if truthy areaPath
                           then (case areaPath of
                                   JStr s \<Rightarrow> Some (JStr (last (split_on (CHR 0x5C) s)))
                                 | _ \<Rightarrow> None)
                           else Some (JStr ''''))
            in (case feature of
                  None \<Rightarrow> None
                | Some feature \<Rightarrow>
                    Some \<lparr> us_id = wi_id workItemData,
                           us_title = js_or (field workItemData ''System.Title'') (JStr ''''),
                           us_description = js_or (field workItemData ''System.Description'') (JStr ''''),
                           us_state = js_or (field workItemData ''System.State'') (JStr ''''),
                           us_priority = js_or (field workItemData ''Microsoft.VSTS.Common.Priority'') (JStr ''Medium''),
                           us_feature = js_or (field workItemData ''System.Title'') feature,
                           us_tags = js_or (field workItemData ''System.Tags'') (JStr ''''),
                           us_acceptanceCriteria =
                             parseAcceptanceCriterias e (field workItemData ''Microsoft.VSTS.Common.AcceptanceCriteria'') \<rparr>))"

record test_case =
  tc_id :: jsval
  tc_title :: jsval
  tc_description :: jsval
  tc_state :: jsval
  tc_priority :: jsval
  tc_executionStatus :: string
  tc_steps :: jsval
  tc_acceptanceCriteria :: jsval
  tc_scenarioType :: jsval

text \<open>\<open>fetchTestCase(testCaseId)\<close>\<close>

definition fetchTestCase :: "env \<Rightarrow> int option \<Rightarrow> test_case option" where
  "fetchTestCase e testCaseId =
     (case makeApiRequest e (GetWorkItem testCaseId) of
        None \<Rightarrow> None
      | Some workItemData \<Rightarrow>
          if field workItemData ''System.WorkItemType'' \<noteq> JStr ''Test Case'' then None
          else
            Some \<lparr> tc_id = wi_id workItemData,
                   tc_title = js_or (field workItemData ''System.Title'') (JStr ''''),
                   tc_description = js_or (field workItemData ''System.Description'') (JStr ''''),
                   tc_state = js_or (field workItemData ''System.State'') (JStr ''''),
                   tc_priority = js_or (field workItemData ''Microsoft.VSTS.Common.Priority'') (JStr ''Medium''),
                   tc_executionStatus =
                     (if field workItemData ''System.State'' \<in> set [JStr ''Done'', JStr ''Completed'']
                      then ''Pass'' else ''Fail''),
                   tc_steps = js_or (field workItemData ''Microsoft.VSTS.TCM.Steps'') (JStr ''''),
                   tc_acceptanceCriteria = js_or (field workItemData ''Custom.AcceptanceCriteriaNumber'') (JStr ''''),
                   tc_scenarioType = js_or (field workItemData ''Custom.ScenarioType'') (JStr '''') \<rparr>)"

text \<open>The body of the loop over \<open>workItemData.relations\<close>: the test case pushed, if any.\<close>

definition relatedTestCase :: "env \<Rightarrow> relation \<Rightarrow> test_case option" where
  "relatedTestCase e relation =
     (let rel = (case rel_rel relation of None \<Rightarrow> '''' | Some r \<Rightarrow> r)
      in if \<not> (rel = ''Microsoft.VSTS.Common.TestedBy'' \<or> str_includes (toLowerCase rel) ''test'') then None
         else let relationUrl = (case rel_url relation of None \<Rightarrow> '''' | Some u \<Rightarrow> u)
              in if relationUrl = [] then None
                 else fetchTestCase e (js_parseInt (last (split_on CHR ''/'' relationUrl))))"

text \<open>\<open>fetchRelatedTestCases(userStoryId)\<close>\<close>

definition fetchRelatedTestCases :: "env \<Rightarrow> int \<Rightarrow> test_case list" where
  "fetchRelatedTestCases e userStoryId =
     (case makeApiRequest e (GetWorkItemRelations userStoryId) of
        None \<Rightarrow> []
      | Some workItemData \<Rightarrow>
          (case wi_relations workItemData of
             None \<Rightarrow> []
           | Some relations \<Rightarrow> List.map_filter (relatedTestCase e) relations))"

section \<open>Reconciliation Engine\<close>

record rtm_row =
  UserStoryId :: int
  Feature :: jsval
  ScenarioType :: jsval
  Description :: jsval
  TestCaseId :: jsval
  Status :: string
  Priority :: string
  Execution :: string

text \<open>
  The \<open>Map\<close> built by \<open>allTestCases.reduce\<close>: every test case is appended to the list
  stored under its raw \<open>acceptanceCriteria\<close> value.
\<close>

definition group_testCase :: "(jsval \<rightharpoonup> test_case list) \<Rightarrow> test_case \<Rightarrow> (jsval \<rightharpoonup> test_case list)" where
  "group_testCase acc testCase =
     (let acNo = tc_acceptanceCriteria testCase
      in acc(acNo \<mapsto> (case acc acNo of None \<Rightarrow> [] | Some tcs \<Rightarrow> tcs) @ [testCase]))"

definition testCasesMap :: "test_case list \<Rightarrow> (jsval \<rightharpoonup> test_case list)" where
  "testCasesMap allTestCases = foldl group_testCase Map.empty allTestCases"

text \<open>The row pushed for a user story that has no test case at all.\<close>

definition story_row :: "int \<Rightarrow> user_story \<Rightarrow> rtm_row" where
  "story_row userStoryId userStory =
     \<lparr> UserStoryId = userStoryId,
       Feature = us_feature userStory,
       ScenarioType = JStr (determineScenarioType (us_title userStory) (us_description userStory) (us_tags userStory)),
       Description = us_title userStory,
       TestCaseId = JStr '''',
       Status = ''Missing'',
       Priority = mapPriority (us_priority userStory),
       Execution = '''' \<rparr>"

text \<open>The row pushed for an acceptance criterion without test cases.\<close>

definition missing_row :: "int \<Rightarrow> user_story \<Rightarrow> string \<Rightarrow> rtm_row" where
  "missing_row userStoryId userStory criteria =
     \<lparr> UserStoryId = userStoryId,
       Feature = us_title userStory,
       ScenarioType = JStr ''Functional'',
       Description = JStr criteria,
       TestCaseId = JStr '''',
       Status = ''Missing'',
       Priority = ''Medium'',
       Execution = '''' \<rparr>"

text \<open>The row pushed for a test case of an acceptance criterion.\<close>

definition covered_row :: "int \<Rightarrow> user_story \<Rightarrow> test_case \<Rightarrow> rtm_row" where
  "covered_row userStoryId userStory testCase =
     \<lparr> UserStoryId = userStoryId,
       Feature = us_title userStory,
       ScenarioType = js_or (tc_scenarioType testCase) (JStr ''Functional''),
       Description = js_or (tc_description testCase) (tc_title testCase),
       TestCaseId = tc_id testCase,
       Status = ''Covered'',
       Priority = mapPriority (tc_priority testCase),
       Execution = tc_executionStatus testCase \<rparr>"

text \<open>
  The body of \<open>Object.entries(userStory.acceptanceCriteria).forEach\<close>: the key \<open>acNo\<close>
  is looked up as \<open>Number(acNo)\<close>.
\<close>

definition criterion_rows ::
  "int \<Rightarrow> user_story \<Rightarrow> (jsval \<rightharpoonup> test_case list) \<Rightarrow> nat \<times> string \<Rightarrow> rtm_row list" where
  "criterion_rows userStoryId userStory tcMap entry =
     (case entry of (acNo, criteria) \<Rightarrow>
        let testCases = (case tcMap (JNum (int acNo)) of None \<Rightarrow> [] | Some tcs \<Rightarrow> tcs)
        in if testCases = [] then [missing_row userStoryId userStory criteria]
           else map (covered_row userStoryId userStory) testCases)"

text \<open>
  The worker that \<open>generateRTM\<close> hands to \<open>parallel\<close>: the rows it pushes onto
  \<open>rtmData\<close> for one user story id, in the order of the pushes.
\<close>

definition processUserStory :: "env \<Rightarrow> int \<Rightarrow> rtm_row list" where
  "processUserStory e userStoryId =
     (case fetchUserStory e userStoryId of
        None \<Rightarrow> []
      | Some userStory \<Rightarrow>
          let allTestCases = fetchRelatedTestCases e userStoryId
          in if allTestCases = [] then [story_row userStoryId userStory]
             else concat (map (criterion_rows userStoryId userStory (testCasesMap allTestCases))
                            (Object_entries (us_acceptanceCriteria userStory))))"

section \<open>Bounded Concurrency Runner\<close>

text \<open>
  \<open>parallel(list, fn, limit)\<close> starts \<open>limit\<close> workers over one shared iterator of the
  indices.  A worker that takes an index calls \<open>fn\<close> only on a truthy item and then waits
  for it; when the iterator is exhausted the worker is done.  Which worker runs next is
  decided by the completion of the requests, so a run is driven by a schedule: the list of
  the workers that take a step, in order.  The effect of an invocation of \<open>fn\<close> on the
  shared state happens when it settles.
\<close>

datatype 'a wstate = Ready | Awaiting 'a nat | Done | Failed

record ('a, 's) pool =
  cursor :: nat
  workers :: "'a wstate list"
  calls :: "('a \<times> nat) list"
  store :: 's
  rejected :: "failure option"

definition parallel_init :: "nat \<Rightarrow> 's \<Rightarrow> ('a, 's) pool" where
  "parallel_init limit s = \<lparr> cursor = 0, workers = replicate limit Ready, calls = [], store = s, rejected = None \<rparr>"

definition worker_step ::
  "('a \<Rightarrow> bool) \<Rightarrow> 'a list \<Rightarrow> ('a \<Rightarrow> nat \<Rightarrow> 's \<Rightarrow> failure + 's) \<Rightarrow> ('a, 's) pool \<Rightarrow> nat \<Rightarrow> ('a, 's) pool" where
  "worker_step is_truthy list fn p w =
     (if w < length (workers p) then
        (case workers p ! w of
           Ready \<Rightarrow>
             if cursor p < length list then
               let i = cursor p; item = list ! i
               in if is_truthy item
                  then p\<lparr> cursor := i + 1, workers := (workers p)[w := Awaiting item i], calls := calls p @ [(item, i)] \<rparr>
                  else p\<lparr> cursor := i + 1 \<rparr>
             else p\<lparr> workers := (workers p)[w := Done] \<rparr>
         | Awaiting item i \<Rightarrow>
             (case fn item i (store p) of
                Inr s \<Rightarrow> p\<lparr> workers := (workers p)[w := Ready], store := s \<rparr>
              | Inl err \<Rightarrow>
                  p\<lparr> workers := (workers p)[w := Failed],
                     rejected := (case rejected p of None \<Rightarrow> Some err | Some first \<Rightarrow> Some first) \<rparr>)
         | Done \<Rightarrow> p
         | Failed \<Rightarrow> p)
      else p)"

text \<open>The pool after the steps of a schedule.\<close>

definition parallel ::
  "('a \<Rightarrow> bool) \<Rightarrow> 'a list \<Rightarrow> ('a \<Rightarrow> nat \<Rightarrow> 's \<Rightarrow> failure + 's) \<Rightarrow> nat \<Rightarrow> 's \<Rightarrow> nat list \<Rightarrow> ('a, 's) pool" where
  "parallel is_truthy list fn limit s sched = foldl (worker_step is_truthy list fn) (parallel_init limit s) sched"

text \<open>
  \<open>Promise.all(promises)\<close>: rejected with the first rejection, resolved when every worker
  is done, pending (\<open>None\<close>) otherwise.
\<close>

definition settled :: "('a, 's) pool \<Rightarrow> (failure + unit) option" where
  "settled p =
     (case rejected p of
        Some err \<Rightarrow> Some (Inl err)
      | None \<Rightarrow> if list_all (\<lambda>w. w = Done) (workers p) then Some (Inr ()) else None)"

section \<open>Matrix Aggregator\<close>

text \<open>\<open>if (item)\<close> on a user story id: a number is falsy when it is zero.\<close>

definition number_truthy :: "int \<Rightarrow> bool" where
  "number_truthy n = (n \<noteq> 0)"

text \<open>
  The effect on \<open>rtmData\<close> of the worker that \<open>generateRTM\<close> hands to \<open>parallel\<close>.  All
  its pushes follow its last \<open>await\<close>, so they are one step; it has no \<open>throw\<close> and
  awaits only functions that catch every error, so it never rejects.
\<close>

definition rtm_worker :: "env \<Rightarrow> int \<Rightarrow> nat \<Rightarrow> rtm_row list \<Rightarrow> failure + rtm_row list" where
  "rtm_worker e userStoryId i rtmData = Inr (rtmData @ processUserStory e userStoryId)"

text \<open>
  \<open>generateRTM(userStoryIds)\<close> under a schedule: \<open>None\<close> while \<open>await parallel(...)\<close> is
  pending, \<open>Some (Inl err)\<close> when it throws, \<open>Some (Inr rtmData)\<close> when it returns.
\<close>

definition generateRTM :: "env \<Rightarrow> nat list \<Rightarrow> int list \<Rightarrow> (failure + rtm_row list) option" where
  "generateRTM e sched userStoryIds =
     (let p = parallel number_truthy userStoryIds (rtm_worker e) 5 [] sched
      in (case settled p of
            None \<Rightarrow> None
          | Some (Inl err) \<Rightarrow> Some (Inl err)
          | Some (Inr u) \<Rightarrow> Some (Inr (store p))))"

section \<open>Numbers\<close>

text \<open>
  The percentages are computed on IEEE 754 doubles.  A positive number in the normal
  range is rounded to 53 significant bits, ties to even; the counts of a matrix and their
  quotients stay far inside that range.  The value of a double is a rational.
\<close>

definition pow2 :: "int \<Rightarrow> rat" where
  "pow2 e = (if 0 \<le> e then 2 ^ nat e else 1 / 2 ^ nat (- e))"

text \<open>The binary exponent of a positive rational: \<open>pow2 (ilog2 x) \<le> x < pow2 (ilog2 x + 1)\<close>.\<close>

definition ilog2 :: "rat \<Rightarrow> int" where
  "ilog2 x = (if 1 \<le> x then bitlen \<lfloor>x\<rfloor> - 1 else - bitlen (\<lceil>1 / x\<rceil> - 1))"

definition round_even :: "rat \<Rightarrow> int" where
  "round_even y =
     (let f = \<lfloor>y\<rfloor>; d = y - of_int f
      in if d < 1 / 2 then f else if 1 / 2 < d then f + 1 else if even f then f else f + 1)"

text \<open>The double nearest to a non-negative rational.\<close>

definition fl :: "rat \<Rightarrow> rat" where
  "fl x = (if x \<le> 0 then 0 else let e = ilog2 x - 52 in of_int (round_even (x / pow2 e)) * pow2 e)"

text \<open>\<open>Math.round(x)\<close>: the nearest integer, ties towards \<open>+\<infinity>\<close>.\<close>

definition Math_round :: "rat \<Rightarrow> int" where
  "Math_round x = \<lfloor>x + 1 / 2\<rfloor>"

text \<open>\<open>whole > 0 ? Math.round((part / whole) * 100) : 0\<close>\<close>

definition percentage :: "nat \<Rightarrow> nat \<Rightarrow> int" where
  "percentage part whole =
     (if 0 < whole then Math_round (fl (fl (of_nat part / of_nat whole) * 100)) else 0)"

section \<open>Coverage Statistics Calculator\<close>

text \<open>\<open>[...new Set(xs)]\<close>: the distinct values in the order of their first occurrence.\<close>

definition Set_values :: "'a list \<Rightarrow> 'a list" where
  "Set_values xs = rev (remdups (rev xs))"

record module_kpi =
  m_feature :: jsval
  m_totalUseCases :: nat
  m_positiveCovered :: nat
  m_negativeCovered :: nat
  m_edgeCasesCovered :: nat
  m_integrationCovered :: nat
  m_totalCovered :: nat
  m_coveragePercentage :: int
  m_pass :: nat
  m_fail :: nat

record kpi =
  totalUserStories :: nat
  totalModules :: nat
  totalUseCases :: nat
  positive :: nat
  negative :: nat
  edgeCases :: nat
  integration :: nat
  totalCovered :: nat
  coveragePercentage :: int
  uncoveredUserStories :: int
  execution_total :: nat
  execution_pass :: nat
  execution_fail :: nat
  passPercentage :: int
  failPercentage :: int
  moduleWiseCoverage :: "module_kpi list"

text \<open>
  The statistics of the \<open>/rtm-download\<close> handler (server.js), from \<open>rtmData\<close>: the
  overall and the module-wise coverage of its response.  The ranked lists of the response
  are selections of \<open>moduleWiseCoverage\<close> and are left out.
\<close>

definition rtm_download_module :: "rtm_row list \<Rightarrow> jsval \<Rightarrow> module_kpi" where
  "rtm_download_module rtmData feature =
     (let featureData = filter (\<lambda>row. Feature row = feature) rtmData;
          totalUseCases = length featureData;
          positiveCovered = length (filter (\<lambda>row. ScenarioType row = JStr ''Positive'' \<and> Status row = ''Covered'') featureData);
          negativeCovered = length (filter (\<lambda>row. ScenarioType row = JStr ''Negative'' \<and> Status row = ''Covered'') featureData);
          edgeCasesCovered = length (filter (\<lambda>row. ScenarioType row = JStr ''Edge Case'' \<and> Status row = ''Covered'') featureData);
          integrationCovered = length (filter (\<lambda>row. ScenarioType row = JStr ''Integration'' \<and> Status row = ''Covered'') featureData);
          totalCoveredForFeature = length (filter (\<lambda>row. Status row = ''Covered'') featureData);
          coveragePercentageForFeature = percentage totalCoveredForFeature totalUseCases;
          passForFeature = length (filter (\<lambda>row. Execution row = ''Pass'') featureData);
          failForFeature = length (filter (\<lambda>row. Execution row = ''Fail'') featureData)
      in \<lparr> m_feature = feature,
           m_totalUseCases = totalUseCases,
           m_positiveCovered = positiveCovered,
           m_negativeCovered = negativeCovered,
           m_edgeCasesCovered = edgeCasesCovered,
           m_integrationCovered = integrationCovered,
           m_totalCovered = totalCoveredForFeature,
           m_coveragePercentage = coveragePercentageForFeature,
           m_pass = passForFeature,
           m_fail = failForFeature \<rparr>)"

definition rtm_download :: "rtm_row list \<Rightarrow> kpi" where
  "rtm_download rtmData =
     (let totalUserStories = length (Set_values (map UserStoryId rtmData));
          totalTestCases = length rtmData;
          totalModules = length (Set_values (filter truthy (map Feature rtmData)));
          positiveCount = length (filter (\<lambda>row. ScenarioType row = JStr ''Positive'') rtmData);
          negativeCount = length (filter (\<lambda>row. ScenarioType row = JStr ''Negative'') rtmData);
          edgeCasesCount = length (filter (\<lambda>row. ScenarioType row = JStr ''Edge Case'') rtmData);
          integrationCount = length (filter (\<lambda>row. ScenarioType row = JStr ''Integration'') rtmData);
          totalCovered = length (filter (\<lambda>row. Status row = ''Covered'') rtmData);
          coveragePercentage = percentage totalCovered totalTestCases;
          passCount = length (filter (\<lambda>row. Execution row = ''Pass'') rtmData);
          failCount = length (filter (\<lambda>row. Execution row = ''Fail'') rtmData);
          uniqueFeatures = Set_values (filter truthy (map Feature rtmData));
          uncoveredUserStories =
            int totalUserStories
              - int (length (Set_values (map UserStoryId (filter (\<lambda>row. Status row = ''Covered'') rtmData))))
      in \<lparr> totalUserStories = totalUserStories,
           totalModules = totalModules,
           totalUseCases = totalTestCases,
           positive = positiveCount,
           negative = negativeCount,
           edgeCases = edgeCasesCount,
           integration = integrationCount,
           totalCovered = totalCovered,
           coveragePercentage = coveragePercentage,
           uncoveredUserStories = uncoveredUserStories,
           execution_total = passCount + failCount,
           execution_pass = passCount,
           execution_fail = failCount,
           passPercentage = percentage passCount (passCount + failCount),
           failPercentage = percentage failCount (passCount + failCount),
           moduleWiseCoverage = map (rtm_download_module rtmData) uniqueFeatures \<rparr>)"

text \<open>
  The rows that \<open>exportToExcel\<close> (the generator class) adds to the KPI worksheet, from
  \<open>rtmData\<close>.
\<close>

datatype cell = Text string | Number int | Value jsval

definition exportToExcel_module :: "rtm_row list \<Rightarrow> jsval \<Rightarrow> cell list" where
  "exportToExcel_module rtmData feature =
     (let featureData = filter (\<lambda>row. Feature row = feature) rtmData;
          totalUseCases = length featureData;
          positiveCovered = length (filter (\<lambda>row. ScenarioType row = JStr ''Positive'' \<and> Status row = ''Covered'') featureData);
          negativeCovered = length (filter (\<lambda>row. ScenarioType row = JStr ''Negative'' \<and> Status row = ''Covered'') featureData);
          edgeCasesCovered = length (filter (\<lambda>row. ScenarioType row = JStr ''Edge Case'' \<and> Status row = ''Covered'') featureData);
          integrationCovered = length (filter (\<lambda>row. ScenarioType row = JStr ''Integration'' \<and> Status row = ''Covered'') featureData);
          totalCoveredForFeature = length (filter (\<lambda>row. Status row = ''Covered'') featureData);
          coveragePercentageForFeature = percentage totalCoveredForFeature totalUseCases;
          passForFeature = length (filter (\<lambda>row. Execution row = ''Pass'') featureData);
          failForFeature = length (filter (\<lambda>row. Execution row = ''Fail'') featureData)
      in [Value feature,
          Number (int totalUseCases),
          Number (int positiveCovered),
          Number (int negativeCovered),
          Number (int edgeCasesCovered),
          Number (int integrationCovered),
          Number (int totalCoveredForFeature),
          Number coveragePercentageForFeature,
          Number (int passForFeature),
          Number (int failForFeature)])"

definition exportToExcel_kpi :: "rtm_row list \<Rightarrow> cell list list" where
  "exportToExcel_kpi rtmData =
     (let totalTestCases = length rtmData;
          totalModules = length (Set_values (filter truthy (map Feature rtmData)));
          positiveCount = length (filter (\<lambda>row. ScenarioType row = JStr ''Positive'') rtmData);
          negativeCount = length (filter (\<lambda>row. ScenarioType row = JStr ''Negative'') rtmData);
          edgeCasesCount = length (filter (\<lambda>row. ScenarioType row = JStr ''Edge Case'') rtmData);
          integrationCount = length (filter (\<lambda>row. ScenarioType row = JStr ''Integration'') rtmData);
          totalCovered = length (filter (\<lambda>row. Status row = ''Covered'') rtmData);
          coveragePercentage = percentage totalCovered totalTestCases;
          passCount = length (filter (\<lambda>row. Execution row = ''Pass'') rtmData);
          failCount = length (filter (\<lambda>row. Execution row = ''Fail'') rtmData);
          uniqueFeatures = Set_values (filter truthy (map Feature rtmData))
      in [[Text ''Overall Coverage''],
          [Text ''Total Modules'', Number (int totalModules)],
          [Text ''Total Uses Cases'', Number (int totalTestCases)],
          [Text ''Positive'', Number (int positiveCount)],
          [Text ''Negative'', Number (int negativeCount)],
          [Text ''Edge Cases'', Number (int edgeCasesCount)],
          [Text ''Integration'', Number (int integrationCount)],
          [Text ''Total Covered'', Number (int totalCovered)],
          [Text ''Coverage %age'', Number coveragePercentage],
          [Text ''Pass'', Number (int passCount)],
          [Text ''Fail'', Number (int failCount)],
          [],
          [],
          [Text ''Module Wise Coverage'', Text '''', Text '''', Text '''', Text '''', Text '''', Text '''',
           Text '''', Text '''', Text ''''],
          [Text ''Feature'', Text ''Total Use Cases'', Text ''Positive Covered'', Text ''Negative Covered'',
           Text ''Edge Cases Covered'', Text ''Integration Cases Covered'', Text ''Total Covered'',
           Text ''Coverage %age'', Text ''Pass'', Text ''Fail'']]
         @ map (exportToExcel_module rtmData) uniqueFeatures)"

section \<open>Invariants of the runner\<close>

text \<open>
  The items with their indices, and what holds of the pool after any steps: the iterator
  has handed out a prefix of the indices, the invocations are the truthy items of that
  prefix, and a worker is done only when the iterator is exhausted.
\<close>

definition indexed :: "'a list \<Rightarrow> ('a \<times> nat) list" where
  "indexed list = zip list [0 ..< length list]"

definition pool_inv :: "('a \<Rightarrow> bool) \<Rightarrow> 'a list \<Rightarrow> nat \<Rightarrow> ('a, 's) pool \<Rightarrow> bool" where
  "pool_inv is_truthy list limit p \<longleftrightarrow>
     length (workers p) = limit \<and> cursor p \<le> length list
     \<and> calls p = filter (\<lambda>(item, i). is_truthy item) (take (cursor p) (indexed list))
     \<and> (Done \<in> set (workers p) \<longrightarrow> cursor p = length list)"

text \<open>
  The item a worker is waiting for, and what holds of the pool of \<open>generateRTM\<close>: no
  invocation has rejected, and \<open>rtmData\<close> is the rows of the finished invocations, which
  together with the awaited ones are the invocations made.
\<close>

fun awaited :: "'a wstate \<Rightarrow> 'a list" where
  "awaited (Awaiting item i) = [item]"
| "awaited w = []"

definition rtm_inv :: "env \<Rightarrow> (int, rtm_row list) pool \<Rightarrow> bool" where
  "rtm_inv e p \<longleftrightarrow>
     rejected p = None \<and> Failed \<notin> set (workers p)
     \<and> (\<exists>finished. store p = concat (map (processUserStory e) finished)
            \<and> mset finished + mset (concat (map awaited (workers p))) = mset (map fst (calls p)))"

text \<open>\<open>testCasesMap.get(k) || []\<close>\<close>

definition lookup_group :: "(jsval \<rightharpoonup> test_case list) \<Rightarrow> jsval \<Rightarrow> test_case list" where
  "lookup_group m k = (case m k of None \<Rightarrow> [] | Some tcs \<Rightarrow> tcs)"

text \<open>A schedule that lets the first worker take every index, then ends the others.\<close>

definition seq_schedule :: "nat \<Rightarrow> nat list" where
  "seq_schedule n = replicate (2 * n + 1) 0 @ [1, 2, 3, 4]"

fun steps_left :: "nat \<Rightarrow> nat \<Rightarrow> 'a wstate \<Rightarrow> nat" where
  "steps_left n c Ready = 2 * (n - c) + 1"
| "steps_left n c (Awaiting item i) = 2 * (n - c) + 2"
| "steps_left n c Done = 0"
| "steps_left n c Failed = 0"

section \<open>A small backend\<close>

text \<open>
  User story 100 has two acceptance criteria and two linked test cases: 501 refers to
  criterion 1 by the number 1, 502 refers to criterion 2 by the string "2".  User story
  200 has no links.  User story 300 has the same criteria and test case 502 only.  Every other request is answered with status 404.
\<close>

definition story100 :: work_item where
  "story100 =
     \<lparr> wi_id = JNum 100,
       wi_fields = Some (map_of
         [(''System.WorkItemType'', JStr ''User Story''),
          (''System.Title'', JStr ''Login''),
          (''System.AreaPath'', JStr (''Shop'' @ [CHR 0x5C] @ ''Accounts'')),
          (''Microsoft.VSTS.Common.Priority'', JNum 2),
          (''Microsoft.VSTS.Common.AcceptanceCriteria'', JStr ''<ol><li>can log in</li><li>can log out</li></ol>'')]),
       wi_relations = Some
         [\<lparr> rel_rel = Some ''System.LinkTypes.Hierarchy-Reverse'', rel_url = Some ''https://dev.azure.com/org/_apis/wit/workItems/90'' \<rparr>,
          \<lparr> rel_rel = Some ''Microsoft.VSTS.Common.TestedBy-Forward'', rel_url = Some ''https://dev.azure.com/org/_apis/wit/workItems/501'' \<rparr>,
          \<lparr> rel_rel = Some ''Microsoft.VSTS.Common.TestedBy-Forward'', rel_url = Some ''https://dev.azure.com/org/_apis/wit/workItems/502'' \<rparr>] \<rparr>"

definition case501 :: work_item where
  "case501 =
     \<lparr> wi_id = JNum 501,
       wi_fields = Some (map_of
         [(''System.WorkItemType'', JStr ''Test Case''),
          (''System.Title'', JStr ''Log in with password''),
          (''System.State'', JStr ''Done''),
          (''Microsoft.VSTS.Common.Priority'', JNum 1),
          (''Custom.AcceptanceCriteriaNumber'', JNum 1)]),
       wi_relations = None \<rparr>"

definition case502 :: work_item where
  "case502 =
     \<lparr> wi_id = JNum 502,
       wi_fields = Some (map_of
         [(''System.WorkItemType'', JStr ''Test Case''),
          (''System.Title'', JStr ''Log out''),
          (''System.State'', JStr ''Design''),
          (''Custom.AcceptanceCriteriaNumber'', JStr ''2'')]),
       wi_relations = None \<rparr>"

definition story200 :: work_item where
  "story200 =
     \<lparr> wi_id = JNum 200,
       wi_fields = Some (map_of
         [(''System.WorkItemType'', JStr ''User Story''),
          (''System.Title'', JStr ''Export report''),
          (''System.Tags'', JStr ''performance'')]),
       wi_relations = None \<rparr>"

definition story300 :: work_item where
  "story300 =
     \<lparr> wi_id = JNum 300,
       wi_fields = Some (map_of
         [(''System.WorkItemType'', JStr ''User Story''),
          (''System.Title'', JStr ''Logout''),
          (''Microsoft.VSTS.Common.AcceptanceCriteria'', JStr ''<ol><li>can log in</li><li>can log out</li></ol>'')]),
       wi_relations = Some
         [\<lparr> rel_rel = Some ''Microsoft.VSTS.Common.TestedBy-Forward'', rel_url = Some ''https://dev.azure.com/org/_apis/wit/workItems/502'' \<rparr>] \<rparr>"

definition example_get :: "request \<Rightarrow> failure + work_item" where
  "example_get request =
     (if request = GetWorkItem (Some 100) \<or> request = GetWorkItemRelations 100 then Inr story100
      else if request = GetWorkItem (Some 501) then Inr case501
      else if request = GetWorkItem (Some 502) then Inr case502
      else if request = GetWorkItem (Some 200) \<or> request = GetWorkItemRelations 200 then Inr story200
      else if request = GetWorkItem (Some 300) \<or> request = GetWorkItemRelations 300 then Inr story300
      else Inl (HttpStatus 404))"

definition example_li :: "jsval \<Rightarrow> string list" where
  "example_li html =
     (if html = JStr ''<ol><li>can log in</li><li>can log out</li></ol>''
      then [''can log in'', ''can log out''] else [])"

definition example_env :: env where
  "example_env = \<lparr> axios_get = example_get, li_texts = example_li \<rparr>"

text \<open>A backend that cannot be reached: every request fails in the transport.\<close>

definition unreachable_get :: "request \<Rightarrow> failure + work_item" where
  "unreachable_get request = Inl NetworkError"

definition unreachable_env :: env where
  "unreachable_env = \<lparr> axios_get = unreachable_get, li_texts = example_li \<rparr>"

text \<open>The small backend with the request for test case 501 answered by status 404.\<close>

definition flaky_get :: "request \<Rightarrow> failure + work_item" where
  "flaky_get request = (if request = GetWorkItem (Some 501) then Inl (HttpStatus 404) else example_get request)"

definition flaky_env :: env where
  "flaky_env = \<lparr> axios_get = flaky_get, li_texts = example_li \<rparr>"

text \<open>
  The small backend with user story 400 added: it has the same criteria and the test case
  601 only, and the reply to the request for work item 601 holds no \<open>id\<close>.
\<close>

definition story400 :: work_item where
  "story400 =
     \<lparr> wi_id = JNum 400,
       wi_fields = Some (map_of
         [(''System.WorkItemType'', JStr ''User Story''),
          (''System.Title'', JStr ''Password reset''),
          (''Microsoft.VSTS.Common.AcceptanceCriteria'', JStr ''<ol><li>can log in</li><li>can log out</li></ol>'')]),
       wi_relations = Some
         [\<lparr> rel_rel = Some ''Microsoft.VSTS.Common.TestedBy-Forward'', rel_url = Some ''https://dev.azure.com/org/_apis/wit/workItems/601'' \<rparr>] \<rparr>"

definition case601 :: work_item where
  "case601 =
     \<lparr> wi_id = JUndefined,
       wi_fields = Some (map_of
         [(''System.WorkItemType'', JStr ''Test Case''),
          (''System.Title'', JStr ''Reset by mail''),
          (''System.State'', JStr ''Done''),
          (''Custom.AcceptanceCriteriaNumber'', JNum 1)]),
       wi_relations = None \<rparr>"

definition noid_get :: "request \<Rightarrow> failure + work_item" where
  "noid_get request =
     (if request = GetWorkItem (Some 400) \<or> request = GetWorkItemRelations 400 then Inr story400
      else if request = GetWorkItem (Some 601) then Inr case601
      else example_get request)"

definition noid_env :: env where
  "noid_env = \<lparr> axios_get = noid_get, li_texts = example_li \<rparr>"

text \<open>A worker function that counts its invocations in the shared state.\<close>

definition count_worker :: "int \<Rightarrow> nat \<Rightarrow> nat \<Rightarrow> failure + nat" where
  "count_worker item i n = Inr (n + 1)"

text \<open>Matrices with a given number of Covered and of Missing rows.\<close>

definition covered_example :: rtm_row where
  "covered_example =
     \<lparr> UserStoryId = 100, Feature = JStr ''Login'', ScenarioType = JStr ''Functional'',
       Description = JStr ''Log in with password'', TestCaseId = JNum 501, Status = ''Covered'',
       Priority = ''High'', Execution = ''Pass'' \<rparr>"

definition missing_example :: rtm_row where
  "missing_example =
     \<lparr> UserStoryId = 100, Feature = JStr ''Login'', ScenarioType = JStr ''Functional'',
       Description = JStr ''can log out'', TestCaseId = JStr '''', Status = ''Missing'',
       Priority = ''Medium'', Execution = '''' \<rparr>"

definition matrix_of :: "nat \<Rightarrow> nat \<Rightarrow> rtm_row list" where
  "matrix_of covered missing = replicate covered covered_example @ replicate missing missing_example"

section \<open>The runner visits every index\<close>

lemma indexed_nth: "i < length list \<Longrightarrow> indexed list ! i = (list ! i, i)"
  by (simp add: indexed_def)

lemma length_indexed [simp]: "length (indexed list) = length list"
  by (simp add: indexed_def)

lemma pool_inv_init: "pool_inv is_truthy list limit (parallel_init limit s)"
  by (simp add: pool_inv_def parallel_init_def)

lemma set_update_Done:
  "Done \<in> set (ws[w := x]) \<Longrightarrow> x \<noteq> Done \<Longrightarrow> Done \<in> set ws"
  by (metis in_set_conv_nth length_list_update nth_list_update_eq nth_list_update_neq)

lemma pool_inv_step:
  assumes "pool_inv is_truthy list limit p"
  shows "pool_inv is_truthy list limit (worker_step is_truthy list fn p w)"
proof (cases "w < length (workers p)")
  case False
  then show ?thesis using assms by (simp add: worker_step_def)
next
  case True
  show ?thesis
  proof (cases "workers p ! w")
    case Ready
    show ?thesis
    proof (cases "cursor p < length list")
      case lt: True
      have tk: "take (Suc (cursor p)) (indexed list) = take (cursor p) (indexed list) @ [(list ! cursor p, cursor p)]"
        using lt by (simp add: take_Suc_conv_app_nth indexed_nth)
      show ?thesis
        using assms True Ready lt tk
        by (auto simp: worker_step_def pool_inv_def Let_def dest: set_update_Done)
    next
      case False
      then show ?thesis
        using assms True Ready by (auto simp: worker_step_def pool_inv_def)
    qed
  next
    case (Awaiting item i)
    then show ?thesis
      using assms True
      by (auto simp: worker_step_def pool_inv_def split: sum.splits dest: set_update_Done)
  next
    case Done
    then show ?thesis using assms True by (simp add: worker_step_def)
  next
    case Failed
    then show ?thesis using assms True by (simp add: worker_step_def)
  qed
qed

lemma pool_inv_foldl:
  "pool_inv is_truthy list limit p \<Longrightarrow> pool_inv is_truthy list limit (foldl (worker_step is_truthy list fn) p sched)"
  by (induction sched arbitrary: p) (simp_all add: pool_inv_step)

lemma pool_inv_parallel: "pool_inv is_truthy list limit (parallel is_truthy list fn limit s sched)"
  unfolding parallel_def by (rule pool_inv_foldl [OF pool_inv_init])

lemma settled_resolved:
  "settled p = Some (Inr u) \<Longrightarrow> \<forall>w \<in> set (workers p). w = Done"
  by (auto simp: settled_def list_all_iff split: option.splits if_splits)

lemma parallel_calls:
  assumes "0 < limit" and "settled (parallel is_truthy list fn limit s sched) = Some (Inr ())"
  shows "calls (parallel is_truthy list fn limit s sched)
         = filter (\<lambda>(item, i). is_truthy item) (zip list [0 ..< length list])"
proof -
  let ?p = "parallel is_truthy list fn limit s sched"
  have inv: "pool_inv is_truthy list limit ?p" by (rule pool_inv_parallel)
  then have "workers ?p \<noteq> []" using assms(1) by (auto simp: pool_inv_def)
  then obtain w where "w \<in> set (workers ?p)" by (cases "workers ?p") auto
  then have "Done \<in> set (workers ?p)" using settled_resolved [OF assms(2)] by auto
  then have "cursor ?p = length list" using inv by (simp add: pool_inv_def)
  then show ?thesis using inv by (simp add: pool_inv_def indexed_def)
qed

section \<open>The matrix is the rows of the processed ids\<close>

lemma mset_concat_update:
  "i < length xs \<Longrightarrow>
     mset (concat (map f (xs[i := y]))) + mset (f (xs ! i)) = mset (concat (map f xs)) + mset (f y)"
proof (induction xs arbitrary: i)
  case Nil
  then show ?case by simp
next
  case (Cons x xs)
  then show ?case
  proof (cases i)
    case 0
    then show ?thesis by simp
  next
    case (Suc j)
    then have "mset (concat (map f (xs[j := y]))) + mset (f (xs ! j)) = mset (concat (map f xs)) + mset (f y)"
      using Cons by simp
    then have "mset (f x) + (mset (concat (map f (xs[j := y]))) + mset (f (xs ! j)))
               = mset (f x) + (mset (concat (map f xs)) + mset (f y))"
      by simp
    then show ?thesis using Suc by (simp add: ac_simps)
  qed
qed

lemma set_update_Failed:
  "Failed \<in> set (ws[w := x]) \<Longrightarrow> x \<noteq> Failed \<Longrightarrow> Failed \<in> set ws"
  by (metis in_set_conv_nth length_list_update nth_list_update_eq nth_list_update_neq)

lemma rtm_inv_init: "rtm_inv e (parallel_init limit [])"
proof -
  have "concat (map awaited (replicate limit (Ready :: int wstate))) = []"
    by (induction limit) simp_all
  then show ?thesis
    by (auto simp: rtm_inv_def parallel_init_def intro: exI [of _ "[]"])
qed

lemma rtm_inv_step:
  assumes "rtm_inv e p"
  shows "rtm_inv e (worker_step number_truthy list (rtm_worker e) p w)"
proof (cases "w < length (workers p)")
  case False
  then show ?thesis using assms by (simp add: worker_step_def)
next
  case True
  from assms obtain finished where
    rej: "rejected p = None" and nf: "Failed \<notin> set (workers p)"
    and st: "store p = concat (map (processUserStory e) finished)"
    and ms: "mset finished + mset (concat (map awaited (workers p))) = mset (map fst (calls p))"
    by (auto simp: rtm_inv_def)
  note upd = mset_concat_update [OF True, of awaited]
  show ?thesis
  proof (cases "workers p ! w")
    case Ready
    show ?thesis
    proof (cases "cursor p < length list \<and> number_truthy (list ! cursor p)")
      case True
      let ?item = "list ! cursor p"
      have "mset (concat (map awaited ((workers p)[w := Awaiting ?item (cursor p)])))
            = mset (concat (map awaited (workers p))) + {#?item#}"
        using upd [of "Awaiting ?item (cursor p)"] Ready by simp
      then have "mset finished + mset (concat (map awaited ((workers p)[w := Awaiting ?item (cursor p)])))
            = mset (map fst (calls p)) + {#?item#}"
        using ms by (simp add: ac_simps)
      then show ?thesis
        using True \<open>w < length (workers p)\<close> Ready rej nf st
        by (auto simp: worker_step_def rtm_inv_def Let_def dest: set_update_Failed intro!: exI [of _ finished])
    next
      case False
      have "mset (concat (map awaited ((workers p)[w := Done]))) = mset (concat (map awaited (workers p)))"
        using upd [of Done] Ready by simp
      then show ?thesis
        using False \<open>w < length (workers p)\<close> Ready rej nf st ms
        by (auto simp: worker_step_def rtm_inv_def Let_def dest: set_update_Failed intro!: exI [of _ finished])
    qed
  next
    case (Awaiting item i)
    have h: "mset (concat (map awaited (workers p))) = mset (concat (map awaited ((workers p)[w := Ready]))) + {#item#}"
      using upd [of Ready] Awaiting by simp
    have "mset (finished @ [item]) + mset (concat (map awaited ((workers p)[w := Ready]))) = mset (map fst (calls p))"
      using ms by (simp add: h)
    moreover have "store p @ processUserStory e item = concat (map (processUserStory e) (finished @ [item]))"
      using st by simp
    ultimately show ?thesis
      using \<open>w < length (workers p)\<close> Awaiting rej nf
      by (auto simp: worker_step_def rtm_inv_def rtm_worker_def dest: set_update_Failed
          intro!: exI [of _ "finished @ [item]"])
  next
    case Done
    then show ?thesis using assms True by (simp add: worker_step_def)
  next
    case Failed
    then show ?thesis using assms True by (simp add: worker_step_def)
  qed
qed

lemma rtm_inv_foldl:
  "rtm_inv e p \<Longrightarrow> rtm_inv e (foldl (worker_step number_truthy list (rtm_worker e)) p sched)"
  by (induction sched arbitrary: p) (simp_all add: rtm_inv_step)

lemma rtm_inv_parallel: "rtm_inv e (parallel number_truthy list (rtm_worker e) limit [] sched)"
  unfolding parallel_def by (rule rtm_inv_foldl [OF rtm_inv_init])

lemma generateRTM_never_throws: "generateRTM e sched userStoryIds \<noteq> Some (Inl err)"
  using rtm_inv_parallel [of e userStoryIds 5 sched]
  by (auto simp: generateRTM_def Let_def rtm_inv_def settled_def split: option.splits sum.splits if_splits)

lemma map_fst_filter_indexed:
  "map fst (filter (\<lambda>(item, i). P item) (zip xs [0 ..< length xs])) = filter P xs"
proof -
  have eq: "(\<lambda>(item, i). P item) = P \<circ> fst" by auto
  have "filter P (map fst (zip xs [0 ..< length xs])) = map fst (filter (P \<circ> fst) (zip xs [0 ..< length xs]))"
    by (rule filter_map)
  then show ?thesis by (simp add: eq)
qed

lemma awaited_all_Done: "\<forall>w \<in> set ws. w = Done \<Longrightarrow> concat (map awaited ws) = []"
  by (induction ws) auto

lemma generateRTM_rows:
  assumes "generateRTM e sched userStoryIds = Some (Inr rtmData)"
  shows "\<exists>finished. mset finished = mset (filter number_truthy userStoryIds)
           \<and> rtmData = concat (map (processUserStory e) finished)"
proof -
  let ?p = "parallel number_truthy userStoryIds (rtm_worker e) 5 [] sched"
  from assms have res: "settled ?p = Some (Inr ())" and rows: "rtmData = store ?p"
    by (auto simp: generateRTM_def Let_def split: option.splits sum.splits)
  have "calls ?p = filter (\<lambda>(item, i). number_truthy item) (zip userStoryIds [0 ..< length userStoryIds])"
    by (rule parallel_calls [OF _ res]) simp
  then have c: "map fst (calls ?p) = filter number_truthy userStoryIds"
    by (simp add: map_fst_filter_indexed)
  have aw: "concat (map awaited (workers ?p)) = []"
    by (rule awaited_all_Done [OF settled_resolved [OF res]])
  obtain finished where st: "store ?p = concat (map (processUserStory e) finished)"
    and ms: "mset finished + mset (concat (map awaited (workers ?p))) = mset (map fst (calls ?p))"
    using rtm_inv_parallel [of e userStoryIds 5 sched] by (auto simp: rtm_inv_def)
  have "mset finished = mset (map fst (calls ?p))"
    using ms unfolding aw by simp
  then have "mset finished = mset (filter number_truthy userStoryIds)"
    unfolding c .
  then show ?thesis using st rows by blast
qed

section \<open>The rows of one user story\<close>

lemma lookup_group_step:
  "lookup_group (group_testCase m tc) k
   = lookup_group m k @ (if tc_acceptanceCriteria tc = k then [tc] else [])"
  by (simp add: lookup_group_def group_testCase_def Let_def)

lemma lookup_group_foldl:
  "lookup_group (foldl group_testCase m tcs) k
   = lookup_group m k @ filter (\<lambda>tc. tc_acceptanceCriteria tc = k) tcs"
  by (induction tcs arbitrary: m) (simp_all add: lookup_group_step)

lemma testCasesMap_filter:
  "(case testCasesMap tcs k of None \<Rightarrow> [] | Some l \<Rightarrow> l) = filter (\<lambda>tc. tc_acceptanceCriteria tc = k) tcs"
  using lookup_group_foldl [of Map.empty tcs k]
  by (simp add: testCasesMap_def lookup_group_def)

lemma criterion_rows_filter:
  "criterion_rows userStoryId userStory (testCasesMap tcs) (acNo, criteria)
   = (let grouped = filter (\<lambda>tc. tc_acceptanceCriteria tc = JNum (int acNo)) tcs
      in if grouped = [] then [missing_row userStoryId userStory criteria]
         else map (covered_row userStoryId userStory) grouped)"
  by (simp add: criterion_rows_def testCasesMap_filter Let_def)

lemma criterion_rows_id:
  "r \<in> set (criterion_rows userStoryId userStory m entry) \<Longrightarrow> UserStoryId r = userStoryId"
  by (cases entry) (auto simp: criterion_rows_def Let_def missing_row_def covered_row_def split: if_splits)

lemma processUserStory_id:
  "r \<in> set (processUserStory e userStoryId) \<Longrightarrow> UserStoryId r = userStoryId"
  by (auto simp: processUserStory_def Let_def story_row_def split: option.splits if_splits
      dest: criterion_rows_id)

lemma concat_only:
  "count_list xs a = 1 \<Longrightarrow> concat (map (\<lambda>x. if x = a then g x else []) xs) = g a"
proof (induction xs)
  case Nil
  then show ?case by simp
next
  case (Cons x xs)
  show ?case
  proof (cases "x = a")
    case True
    then have "count_list xs a = 0" using Cons.prems by simp
    then have "a \<notin> set xs" by (simp add: count_list_0_iff)
    then have "concat (map (\<lambda>x. if x = a then g x else []) xs) = []" by (induction xs) auto
    then show ?thesis using True by simp
  next
    case False
    then show ?thesis using Cons by simp
  qed
qed

lemma filter_story_rows:
  "filter (\<lambda>r. UserStoryId r = a) (processUserStory e x) = (if x = a then processUserStory e x else [])"
  by (auto simp: filter_empty_conv dest: processUserStory_id intro: filter_True)

lemma rows_of_story:
  assumes "generateRTM e sched userStoryIds = Some (Inr rtmData)"
    and "userStoryId \<noteq> 0" and "count_list userStoryIds userStoryId = 1"
  shows "filter (\<lambda>r. UserStoryId r = userStoryId) rtmData = processUserStory e userStoryId"
proof -
  obtain finished where m: "mset finished = mset (filter number_truthy userStoryIds)"
    and rows: "rtmData = concat (map (processUserStory e) finished)"
    using generateRTM_rows [OF assms(1)] by blast
  have "count (mset finished) userStoryId = count (mset (filter number_truthy userStoryIds)) userStoryId"
    using m by simp
  then have c: "count_list finished userStoryId = 1"
    using assms(2,3) by (simp add: number_truthy_def count_mset)
  have "filter (\<lambda>r. UserStoryId r = userStoryId) rtmData
        = concat (map (\<lambda>x. if x = userStoryId then processUserStory e x else []) finished)"
    unfolding rows by (simp add: filter_concat comp_def filter_story_rows)
  then show ?thesis using concat_only [OF c, of "processUserStory e"] by simp
qed

lemma sorted_enumerate_keys:
  "sorted_wrt (<) (map fst (filter P (map (\<lambda>(index, text). (index + 1, text)) (enumerate n xs))))"
proof -
  have "sorted_wrt (<) (map fst (map (\<lambda>(index, text). (index + 1 :: nat, text)) (enumerate n xs)))"
    by (simp add: comp_def case_prod_unfold sorted_wrt_map enumerate_eq_zip sorted_wrt_iff_nth_less)
  then show ?thesis
    by (metis (no_types, lifting) sorted_wrt_filter sorted_wrt_map)
qed

lemma parseAcceptanceCriterias_sorted:
  "sorted_wrt (<) (map fst (parseAcceptanceCriterias e htmlString))"
  using sorted_enumerate_keys [of "\<lambda>(k, text). text \<noteq> []" 0 "li_texts e htmlString"]
  by (simp add: parseAcceptanceCriterias_def)

lemma Object_entries_sorted: "sorted (map fst (Object_entries obj))"
  by (simp add: Object_entries_def)

lemma Object_entries_parsed:
  "Object_entries (parseAcceptanceCriterias e htmlString) = parseAcceptanceCriterias e htmlString"
proof -
  have "sorted (map fst (parseAcceptanceCriterias e htmlString))"
    using parseAcceptanceCriterias_sorted [of e htmlString] strict_sorted_imp_sorted by blast
  then show ?thesis
    unfolding Object_entries_def by (rule sort_key_id_if_sorted)
qed

lemma fetchUserStory_criteria:
  "fetchUserStory e userStoryId = Some userStory \<Longrightarrow>
     sorted_wrt (<) (map fst (us_acceptanceCriteria userStory))
     \<and> Object_entries (us_acceptanceCriteria userStory) = us_acceptanceCriteria userStory"
  by (auto simp: fetchUserStory_def Let_def parseAcceptanceCriterias_sorted Object_entries_parsed
      split: option.splits if_splits)

lemma fetchTestCase_reply:
  assumes "fetchTestCase e testCaseId = Some testCase"
  shows "\<exists>workItemData. axios_get e (GetWorkItem testCaseId) = Inr workItemData
           \<and> tc_id testCase = wi_id workItemData
           \<and> tc_executionStatus testCase \<in> {''Pass'', ''Fail''}"
  using assms
  by (auto simp: fetchTestCase_def makeApiRequest_def split: sum.splits if_splits)

lemma related_reply:
  assumes "testCase \<in> set (fetchRelatedTestCases e userStoryId)"
  shows "\<exists>testCaseId. fetchTestCase e testCaseId = Some testCase"
proof -
  from assms obtain workItemData relations where
    "testCase \<in> set (List.map_filter (relatedTestCase e) relations)"
    by (auto simp: fetchRelatedTestCases_def split: option.splits)
  then obtain relation where "relatedTestCase e relation = Some testCase"
    by (auto simp: List.map_filter_def)
  then show ?thesis
    by (auto simp: relatedTestCase_def Let_def split: if_splits)
qed

lemma criterion_rows_cases:
  assumes "r \<in> set (criterion_rows userStoryId userStory (testCasesMap tcs) entry)"
  shows "(\<exists>criteria. r = missing_row userStoryId userStory criteria)
         \<or> (\<exists>testCase \<in> set tcs. r = covered_row userStoryId userStory testCase)"
proof (cases entry)
  case (Pair acNo criteria)
  then show ?thesis
    using assms by (auto simp: criterion_rows_filter Let_def split: if_splits)
qed

lemma processUserStory_cases:
  assumes "r \<in> set (processUserStory e userStoryId)"
  shows "(\<exists>userStory. r = story_row userStoryId userStory)
         \<or> (\<exists>userStory criteria. r = missing_row userStoryId userStory criteria)
         \<or> (\<exists>userStory. \<exists>testCase \<in> set (fetchRelatedTestCases e userStoryId).
               r = covered_row userStoryId userStory testCase)"
proof (cases "fetchUserStory e userStoryId")
  case None
  then show ?thesis using assms by (simp add: processUserStory_def)
next
  case (Some userStory)
  show ?thesis
  proof (cases "fetchRelatedTestCases e userStoryId = []")
    case True
    then have "r = story_row userStoryId userStory"
      using assms Some by (simp add: processUserStory_def)
    then show ?thesis by blast
  next
    case False
    then obtain entry where
      "r \<in> set (criterion_rows userStoryId userStory (testCasesMap (fetchRelatedTestCases e userStoryId)) entry)"
      using assms Some by (auto simp: processUserStory_def Let_def)
    from criterion_rows_cases [OF this] show ?thesis by blast
  qed
qed

lemma processUserStory_criteria:
  assumes "fetchUserStory e userStoryId = Some userStory"
    and "fetchRelatedTestCases e userStoryId = allTestCases" and "allTestCases \<noteq> []"
  shows "processUserStory e userStoryId =
           concat (map (\<lambda>(acNo, criteria).
                      let grouped = filter (\<lambda>tc. tc_acceptanceCriteria tc = JNum (int acNo)) allTestCases
                      in if grouped = [] then [missing_row userStoryId userStory criteria]
                         else map (covered_row userStoryId userStory) grouped)
                   (Object_entries (us_acceptanceCriteria userStory)))"
proof -
  have "criterion_rows userStoryId userStory (testCasesMap allTestCases)
        = (\<lambda>(acNo, criteria).
             let grouped = filter (\<lambda>tc. tc_acceptanceCriteria tc = JNum (int acNo)) allTestCases
             in if grouped = [] then [missing_row userStoryId userStory criteria]
                else map (covered_row userStoryId userStory) grouped)"
    by (rule ext) (simp add: criterion_rows_filter split: prod.splits)
  then show ?thesis using assms by (simp add: processUserStory_def)
qed

section \<open>A schedule under which the generator returns\<close>

lemma worker0_runs:
  assumes "workers p \<noteq> []" and "workers p ! 0 \<noteq> Failed" and "cursor p \<le> length list"
    and "steps_left (length list) (cursor p) (workers p ! 0) \<le> k"
  shows "workers (foldl (worker_step number_truthy list (rtm_worker e)) p (replicate k 0))
         = (workers p)[0 := Done]"
  using assms
proof (induction k arbitrary: p)
  case 0
  then have "workers p ! 0 = Done" by (cases "workers p ! 0") auto
  then have "(workers p)[0 := Done] = workers p" by (metis list_update_id)
  then show ?case by simp
next
  case (Suc k)
  let ?q = "worker_step number_truthy list (rtm_worker e) p 0"
  have len: "0 < length (workers p)" using Suc.prems(1) by simp
  have q: "workers ?q \<noteq> [] \<and> workers ?q ! 0 \<noteq> Failed \<and> cursor ?q \<le> length list
           \<and> steps_left (length list) (cursor ?q) (workers ?q ! 0) \<le> k
           \<and> (workers ?q)[0 := Done] = (workers p)[0 := Done]"
  proof (cases "workers p ! 0")
    case Ready
    then show ?thesis using Suc.prems len
      by (auto simp: worker_step_def Let_def)
  next
    case (Awaiting item i)
    then show ?thesis using Suc.prems len
      by (auto simp: worker_step_def rtm_worker_def)
  next
    case Done
    then show ?thesis using Suc.prems len by (auto simp: worker_step_def)
  next
    case Failed
    then show ?thesis using Suc.prems by simp
  qed
  have "workers (foldl (worker_step number_truthy list (rtm_worker e)) ?q (replicate k 0)) = (workers ?q)[0 := Done]"
    using q by (intro Suc.IH) auto
  then show ?case using q by simp
qed

lemma seq_schedule_settles:
  "settled (parallel number_truthy userStoryIds (rtm_worker e) 5 [] (seq_schedule (length userStoryIds)))
   = Some (Inr ())"
proof -
  let ?step = "worker_step number_truthy userStoryIds (rtm_worker e)"
  let ?n = "length userStoryIds"
  let ?p = "foldl ?step (parallel_init 5 []) (replicate (2 * ?n + 1) 0)"
  have w: "workers ?p = [Done, Ready, Ready, Ready, Ready]"
    using worker0_runs [of "parallel_init 5 []" userStoryIds "2 * ?n + 1" e]
    by (simp add: parallel_init_def numeral_eq_Suc)
  have inv: "pool_inv number_truthy userStoryIds 5 ?p"
    by (rule pool_inv_foldl [OF pool_inv_init])
  then have c: "cursor ?p = ?n" using w by (simp add: pool_inv_def)
  have r: "rtm_inv e (foldl ?step ?p [1, 2, 3, 4])"
    by (intro rtm_inv_foldl rtm_inv_init)
  have "workers (foldl ?step ?p [1, 2, 3, 4]) = [Done, Done, Done, Done, Done]"
    using w c by (simp add: worker_step_def)
  then show ?thesis
    using r by (simp add: parallel_def seq_schedule_def settled_def rtm_inv_def)
qed

lemma generateRTM_returns:
  "\<exists>rtmData. generateRTM e (seq_schedule (length userStoryIds)) userStoryIds = Some (Inr rtmData)"
  by (simp add: generateRTM_def Let_def seq_schedule_settles)

section \<open>Rounding to a double and to a percentage\<close>

lemma pow2_pos: "0 < pow2 e"
  by (simp add: pow2_def)

lemma pow2_shift: "pow2 (a - 52) = pow2 a / 2 ^ 52"
proof -
  have p: "pow2 e = 2 powi e" for e
    by (simp add: pow2_def power_int_def power_one_over [symmetric] inverse_eq_divide)
  have "(2 :: rat) powi (a - 52) = 2 powi a / 2 powi 52"
    by (rule power_int_diff) simp
  then show ?thesis by (simp add: p)
qed

lemma ilog2_lower:
  assumes "0 < x"
  shows "pow2 (ilog2 x) \<le> x"
proof (cases "1 \<le> x")
  case True
  then have pos: "0 < \<lfloor>x\<rfloor>" by linarith
  then have "1 \<le> bitlen \<lfloor>x\<rfloor>" using bitlen_bounds [OF pos]
    by (smt (verit) bitlen_nonneg nat_0_iff power_0 zero_less_power)
  then have "pow2 (ilog2 x) = 2 ^ nat (bitlen \<lfloor>x\<rfloor> - 1)"
    using True by (simp add: ilog2_def pow2_def)
  also have "\<dots> = of_int (2 ^ nat (bitlen \<lfloor>x\<rfloor> - 1))" by simp
  also have "\<dots> \<le> of_int \<lfloor>x\<rfloor>"
    using bitlen_bounds [OF pos] by (intro of_int_le_iff [THEN iffD2]) simp
  also have "\<dots> \<le> x" by simp
  finally show ?thesis .
next
  case False
  let ?n = "\<lceil>1 / x\<rceil> - 1"
  have "1 < 1 / x" using False assms by (simp add: field_simps)
  then have n: "0 < ?n" by linarith
  have b: "0 < bitlen ?n" using bitlen_bounds [OF n]
    by (smt (verit) bitlen_nonneg nat_0_iff power_0)
  have "?n < 2 ^ nat (bitlen ?n)" using bitlen_bounds [OF n] by simp
  then have "\<lceil>1 / x\<rceil> \<le> 2 ^ nat (bitlen ?n)" by simp
  then have "(of_int \<lceil>1 / x\<rceil> :: rat) \<le> of_int (2 ^ nat (bitlen ?n))"
    by (rule of_int_le_iff [THEN iffD2])
  moreover have "1 / x \<le> of_int \<lceil>1 / x\<rceil>" by (rule le_of_int_ceiling)
  ultimately have "1 / x \<le> of_int (2 ^ nat (bitlen ?n))" by (rule order_trans [rotated])
  then have "1 / x \<le> 2 ^ nat (bitlen ?n)" by simp
  then have "1 / 2 ^ nat (bitlen ?n) \<le> x"
    using assms by (simp add: field_simps)
  moreover have "pow2 (ilog2 x) = 1 / 2 ^ nat (bitlen ?n)"
    using False b by (simp add: ilog2_def pow2_def)
  ultimately show ?thesis by simp
qed

lemma round_even_error: "\<bar>of_int (round_even y) - y\<bar> \<le> 1 / 2"
proof -
  have "of_int \<lfloor>y\<rfloor> \<le> y" "y < of_int \<lfloor>y\<rfloor> + 1" by linarith+
  then show ?thesis by (auto simp: round_even_def Let_def)
qed

lemma fl_error:
  assumes "0 < x"
  shows "\<bar>fl x - x\<bar> \<le> x / 2 ^ 53"
proof -
  let ?s = "pow2 (ilog2 x - 52)"
  let ?m = "of_int (round_even (x / ?s)) :: rat"
  have s: "0 < ?s" by (rule pow2_pos)
  have "fl x - x = (?m - x / ?s) * ?s"
    using assms s by (simp add: fl_def Let_def field_simps)
  then have "\<bar>fl x - x\<bar> = \<bar>?m - x / ?s\<bar> * ?s"
    using s by (simp add: abs_mult)
  also have "\<dots> \<le> (1 / 2) * ?s"
    using round_even_error [of "x / ?s"] s by (intro mult_right_mono) simp_all
  also have "\<dots> = pow2 (ilog2 x) / 2 ^ 53"
    by (simp add: pow2_shift)
  also have "\<dots> \<le> x / 2 ^ 53"
    using ilog2_lower [OF assms] by (simp add: divide_right_mono)
  finally show ?thesis .
qed

lemma fl_pos:
  assumes "0 < x"
  shows "0 < fl x"
proof -
  have "x / 2 ^ 53 < x" using assms by (simp add: field_simps)
  then show ?thesis using fl_error [OF assms] by linarith
qed

lemma percentage_error:
  assumes "0 < x" and "x \<le> 1"
  shows "\<bar>fl (fl x * 100) - x * 100\<bar> \<le> 300 / 2 ^ 53"
proof -
  let ?q = "fl x"
  have q: "\<bar>?q - x\<bar> \<le> x / 2 ^ 53" by (rule fl_error [OF assms(1)])
  have qpos: "0 < ?q * 100" using fl_pos [OF assms(1)] by simp
  have p: "\<bar>fl (?q * 100) - ?q * 100\<bar> \<le> ?q * 100 / 2 ^ 53" by (rule fl_error [OF qpos])
  have "x / 2 ^ 53 \<le> 1 / 2 ^ 53" using assms(2) by (simp add: divide_right_mono)
  then have q1: "\<bar>?q - x\<bar> \<le> 1 / 2 ^ 53" using q by linarith
  moreover have "(1 :: rat) / 2 ^ 53 \<le> 1" by simp
  ultimately have "?q \<le> 2" using assms(2) by linarith
  then have "?q * 100 / 2 ^ 53 \<le> 200 / 2 ^ 53" by (simp add: divide_right_mono)
  then have p1: "\<bar>fl (?q * 100) - ?q * 100\<bar> \<le> 200 / 2 ^ 53" using p by linarith
  have "fl (?q * 100) - x * 100 = (fl (?q * 100) - ?q * 100) + 100 * (?q - x)"
    by simp
  then have "\<bar>fl (?q * 100) - x * 100\<bar> \<le> \<bar>fl (?q * 100) - ?q * 100\<bar> + \<bar>100 * (?q - x)\<bar>"
    by (simp only: abs_triangle_ineq)
  also have "\<bar>100 * (?q - x)\<bar> = 100 * \<bar>?q - x\<bar>"
    by (simp only: abs_mult abs_numeral)
  also have "\<bar>fl (?q * 100) - ?q * 100\<bar> + 100 * \<bar>?q - x\<bar> \<le> 200 / 2 ^ 53 + 100 * (1 / 2 ^ 53)"
    using p1 q1 by (intro add_mono mult_left_mono) simp_all
  finally show ?thesis by simp
qed

lemma round_near_quotient:
  fixes P :: rat and N D :: int
  assumes D: "0 < D" and near: "\<bar>P - of_int N / of_int D\<bar> < 1 / of_int D"
  shows "N div D - 1 \<le> \<lfloor>P\<rfloor>" and "\<lfloor>P\<rfloor> \<le> N div D"
    and "N mod D \<noteq> 0 \<Longrightarrow> \<lfloor>P\<rfloor> = N div D"
proof -
  let ?k = "N div D" and ?r = "N mod D"
  have Dq: "(0 :: rat) < of_int D" using D by simp
  have r: "0 \<le> ?r" "?r \<le> D - 1" using D by (simp_all add: pos_mod_bound zle_diff1_eq)
  have "N = ?k * D + ?r" by simp
  then have "(of_int N :: rat) = of_int (?k * D + ?r)" by (rule arg_cong)
  then have eqN: "(of_int N :: rat) = of_int ?k * of_int D + of_int ?r"
    by (simp only: of_int_add of_int_mult)
  have "(of_int N :: rat) / of_int D = (of_int ?k * of_int D + of_int ?r) / of_int D"
    using eqN by (rule arg_cong)
  also have "\<dots> = of_int ?k + of_int ?r / of_int D"
    using Dq by (simp add: add_divide_distrib)
  finally have N: "(of_int N :: rat) / of_int D = of_int ?k + of_int ?r / of_int D" .
  have rq: "(0 :: rat) \<le> of_int ?r / of_int D" "(of_int ?r :: rat) / of_int D + 1 / of_int D \<le> 1"
  proof -
    show "(0 :: rat) \<le> of_int ?r / of_int D" using r(1) Dq by simp
    have "?r + 1 \<le> D" using r(2) by simp
    then have "(of_int (?r + 1) :: rat) \<le> of_int D" by (simp only: of_int_le_iff)
    then have "(of_int ?r :: rat) + 1 \<le> of_int D" by simp
    then have "((of_int ?r :: rat) + 1) / of_int D \<le> 1" using Dq by (simp add: field_simps)
    then show "(of_int ?r :: rat) / of_int D + 1 / of_int D \<le> 1" by (simp add: add_divide_distrib)
  qed
  have lo: "of_int ?k + of_int ?r / of_int D - 1 / of_int D < P"
    and hi: "P < of_int ?k + of_int ?r / of_int D + 1 / of_int D"
    using near unfolding N by linarith+
  have "P < of_int ?k + 1" using hi rq(2) by linarith
  then have "P < of_int (?k + 1)" by simp
  then have "\<lfloor>P\<rfloor> < ?k + 1" by (simp only: floor_less_iff)
  then show up: "\<lfloor>P\<rfloor> \<le> ?k" by simp
  have "1 / (of_int D :: rat) \<le> 1" using rq by linarith
  then have "of_int ?k - 1 \<le> P" using lo rq(1) by linarith
  then have "of_int (?k - 1) \<le> P" by simp
  then show "?k - 1 \<le> \<lfloor>P\<rfloor>" by (simp only: le_floor_iff)
  show "\<lfloor>P\<rfloor> = ?k" if "?r \<noteq> 0"
  proof -
    from that r(1) have "1 \<le> ?r" by simp
    then have "(of_int 1 :: rat) \<le> of_int ?r" by (simp only: of_int_le_iff)
    then have "(1 :: rat) \<le> of_int ?r" by simp
    then have "1 / (of_int D :: rat) \<le> of_int ?r / of_int D" using Dq by (simp add: divide_right_mono)
    then have "of_int ?k \<le> P" using lo by linarith
    then have "?k \<le> \<lfloor>P\<rfloor>" by (simp only: le_floor_iff)
    then show ?thesis using up by simp
  qed
qed

lemma percentage_zero: "percentage 0 t = 0" and percentage_empty: "percentage c 0 = 0"
  by (simp_all add: percentage_def fl_def Math_round_def floor_eq_iff)

lemma percentage_near:
  assumes "0 < c" and "c \<le> t" and "t < 2 ^ 32"
  shows "\<bar>(fl (fl (of_nat c / of_nat t) * 100) + 1 / 2) - of_int (200 * int c + int t) / of_int (2 * int t)\<bar>
         < 1 / of_int (2 * int t)"
proof -
  let ?x = "of_nat c / of_nat t :: rat"
  have t: "0 < t" using assms by simp
  have x: "0 < ?x" "?x \<le> 1" using assms t by simp_all
  have e: "\<bar>fl (fl ?x * 100) - ?x * 100\<bar> \<le> 300 / 2 ^ 53" by (rule percentage_error [OF x])
  have "(of_int (200 * int c + int t) :: rat) / of_int (2 * int t) = ?x * 100 + 1 / 2"
    using t by (simp add: field_simps)
  then have "\<bar>(fl (fl ?x * 100) + 1 / 2) - of_int (200 * int c + int t) / of_int (2 * int t)\<bar>
        = \<bar>fl (fl ?x * 100) - ?x * 100\<bar>"
    by simp
  moreover have "(300 :: rat) / 2 ^ 53 < 1 / of_int (2 * int t)"
  proof -
    have "2 * int t < 2 ^ 33" using assms(3) by simp
    then have "(of_int (2 * int t) :: rat) < of_int (2 ^ 33)" by (simp only: of_int_less_iff)
    then have "(of_int (2 * int t) :: rat) < 2 ^ 33" by simp
    moreover have "(0 :: rat) < of_int (2 * int t)" using t by simp
    ultimately have "(1 :: rat) / 2 ^ 33 < 1 / of_int (2 * int t)"
      by (simp add: frac_less2)
    moreover have "(300 :: rat) / 2 ^ 53 < 1 / 2 ^ 33" by simp
    ultimately show ?thesis by linarith
  qed
  ultimately show ?thesis using e by linarith
qed

lemma percentage_rounding:
  assumes "0 < t" and "c \<le> t" and "t < 2 ^ 32"
  shows "(200 * int c + int t) div (2 * int t) - 1 \<le> percentage c t"
    and "percentage c t \<le> (200 * int c + int t) div (2 * int t)"
    and "(200 * int c + int t) mod (2 * int t) \<noteq> 0 \<Longrightarrow>
           percentage c t = (200 * int c + int t) div (2 * int t)"
proof -
  have D: "0 < 2 * int t" using assms(1) by simp
  have all: "(200 * int c + int t) div (2 * int t) - 1 \<le> percentage c t
      \<and> percentage c t \<le> (200 * int c + int t) div (2 * int t)
      \<and> ((200 * int c + int t) mod (2 * int t) \<noteq> 0 \<longrightarrow>
           percentage c t = (200 * int c + int t) div (2 * int t))"
  proof (cases "c = 0")
    case True
    then show ?thesis using assms(1) by (simp add: percentage_zero)
  next
    case False
    then have c: "0 < c" by simp
    have p: "percentage c t = \<lfloor>fl (fl (of_nat c / of_nat t) * 100) + 1 / 2\<rfloor>"
      using assms(1) by (simp add: percentage_def Math_round_def)
    show ?thesis
      unfolding p
      using round_near_quotient [OF D percentage_near [OF c assms(2,3)]] by blast
  qed
  from all show "(200 * int c + int t) div (2 * int t) - 1 \<le> percentage c t"
    and "percentage c t \<le> (200 * int c + int t) div (2 * int t)"
    and "(200 * int c + int t) mod (2 * int t) \<noteq> 0 \<Longrightarrow>
           percentage c t = (200 * int c + int t) div (2 * int t)"
    by blast+
qed

lemma ilog2_upper:
  assumes "0 < x"
  shows "x < pow2 (ilog2 x + 1)"
proof (cases "1 \<le> x")
  case True
  then have pos: "0 < \<lfloor>x\<rfloor>" by linarith
  have b: "0 \<le> bitlen \<lfloor>x\<rfloor>" by (rule bitlen_nonneg)
  have "\<lfloor>x\<rfloor> + 1 \<le> 2 ^ nat (bitlen \<lfloor>x\<rfloor>)" using bitlen_bounds [OF pos] by simp
  then have "(of_int (\<lfloor>x\<rfloor> + 1) :: rat) \<le> of_int (2 ^ nat (bitlen \<lfloor>x\<rfloor>))"
    by (simp only: of_int_le_iff)
  then have "of_int \<lfloor>x\<rfloor> + 1 \<le> (2 :: rat) ^ nat (bitlen \<lfloor>x\<rfloor>)" by simp
  moreover have "x < of_int \<lfloor>x\<rfloor> + 1" by linarith
  moreover have "pow2 (ilog2 x + 1) = 2 ^ nat (bitlen \<lfloor>x\<rfloor>)"
    using True b by (simp add: ilog2_def pow2_def)
  ultimately show ?thesis by linarith
next
  case False
  let ?n = "\<lceil>1 / x\<rceil> - 1"
  let ?b = "bitlen ?n"
  have gt: "1 < 1 / x" using False assms by (simp add: field_simps)
  then have n: "0 < ?n" by linarith
  have "2 ^ nat (?b - 1) \<le> ?n" using bitlen_bounds [OF n] by simp
  then have "(of_int (2 ^ nat (?b - 1)) :: rat) \<le> of_int ?n" by (simp only: of_int_le_iff)
  then have "(2 :: rat) ^ nat (?b - 1) \<le> of_int \<lceil>1 / x\<rceil> - 1" by simp
  moreover have "of_int \<lceil>1 / x\<rceil> - 1 < 1 / x" by linarith
  ultimately have "(2 :: rat) ^ nat (?b - 1) < 1 / x" by linarith
  then have lt: "x < 1 / 2 ^ nat (?b - 1)" using assms by (simp add: field_simps)
  show ?thesis
  proof (cases "?b \<le> 1")
    case True
    then have "nat (?b - 1) = 0" by simp
    then have "x < 1" using lt by simp
    moreover have "1 \<le> pow2 (ilog2 x + 1)"
      using True False by (simp add: ilog2_def pow2_def)
    ultimately show ?thesis by linarith
  next
    case b: False
    then have "pow2 (ilog2 x + 1) = 1 / 2 ^ nat (?b - 1)"
      using False by (simp add: ilog2_def pow2_def)
    then show ?thesis using lt by simp
  qed
qed

lemma significand_range:
  assumes "0 < x"
  shows "2 ^ 52 \<le> x / pow2 (ilog2 x - 52)" and "x / pow2 (ilog2 x - 52) < 2 ^ 53"
proof -
  have p: "pow2 e = 2 powi e" for e
    by (simp add: pow2_def power_int_def power_one_over [symmetric] inverse_eq_divide)
  have up: "pow2 (ilog2 x + 1) = pow2 (ilog2 x) * 2"
    unfolding p by (simp add: power_int_add)
  have s: "0 < pow2 (ilog2 x)" by (rule pow2_pos)
  define y where "y = x / pow2 (ilog2 x)"
  have eq: "x / pow2 (ilog2 x - 52) = y * 2 ^ 52"
    by (simp add: pow2_shift y_def)
  have lo: "1 \<le> y" using ilog2_lower [OF assms] s by (simp add: y_def)
  have hi: "y < 2" using ilog2_upper [OF assms] s unfolding up by (simp add: field_simps y_def)
  have "1 * 2 ^ 52 \<le> y * (2 ^ 52 :: rat)" using lo by (intro mult_right_mono) simp_all
  then show "2 ^ 52 \<le> x / pow2 (ilog2 x - 52)" unfolding eq by simp
  have "y * (2 ^ 52 :: rat) < 2 * 2 ^ 52" using hi by (intro mult_strict_right_mono) simp_all
  then show "x / pow2 (ilog2 x - 52) < 2 ^ 53" unfolding eq by simp
qed

lemma Math_round_quotient:
  "0 < t \<Longrightarrow> Math_round (of_nat c / of_nat t * 100) = (200 * int c + int t) div (2 * int t)"
proof -
  assume t: "0 < t"
  have "(of_nat c :: rat) / of_nat t * 100 + 1 / 2 = of_int (200 * int c + int t) / of_int (2 * int t)"
    using t by (simp add: field_simps)
  then show ?thesis
    unfolding Math_round_def by (simp only: floor_divide_of_int_eq)
qed


section \<open>Requirements with test cases\<close>

text \<open>
  Claim C1.  For a requirement that \<open>generateRTM\<close> fetches (its id is requested once and
  is not the falsy id 0) and that has at least one linked test case, the rows of the
  requirement follow its acceptance criteria in ascending criterion number.  A criterion
  with no test case under its number gives one Missing row: scenario type Functional, the
  criterion text as description, priority Medium, empty test case id and execution.  A
  criterion with test cases gives one Covered row per test case, in fetched order: the
  scenario type is the test case's tag or Functional, the description is the test case's
  description or its title, the priority is \<open>mapPriority\<close> of its priority, the execution
  is its execution outcome.
\<close>

theorem story_with_test_cases:
  assumes "generateRTM e sched userStoryIds = Some (Inr rtmData)"
    and "userStoryId \<noteq> 0" and "count_list userStoryIds userStoryId = 1"
    and "fetchUserStory e userStoryId = Some userStory"
    and "fetchRelatedTestCases e userStoryId = allTestCases" and "allTestCases \<noteq> []"
  shows "filter (\<lambda>r. UserStoryId r = userStoryId) rtmData =
           concat (map (\<lambda>(acNo, criteria).
                      let grouped = filter (\<lambda>tc. tc_acceptanceCriteria tc = JNum (int acNo)) allTestCases
                      in if grouped = []
                         then [\<lparr> UserStoryId = userStoryId,
                                  Feature = us_title userStory,
                                  ScenarioType = JStr ''Functional'',
                                  Description = JStr criteria,
                                  TestCaseId = JStr '''',
                                  Status = ''Missing'',
                                  Priority = ''Medium'',
                                  Execution = '''' \<rparr>]
                         else map (\<lambda>testCase.
                                \<lparr> UserStoryId = userStoryId,
                                  Feature = us_title userStory,
                                  ScenarioType = (if truthy (tc_scenarioType testCase) then tc_scenarioType testCase
                                                  else JStr ''Functional''),
                                  Description = (if truthy (tc_description testCase) then tc_description testCase
                                                 else tc_title testCase),
                                  TestCaseId = tc_id testCase,
                                  Status = ''Covered'',
                                  Priority = mapPriority (tc_priority testCase),
                                  Execution = tc_executionStatus testCase \<rparr>) grouped)
                   (Object_entries (us_acceptanceCriteria userStory)))
         \<and> sorted_wrt (<) (map fst (Object_entries (us_acceptanceCriteria userStory)))"
proof -
  have "sorted_wrt (<) (map fst (Object_entries (us_acceptanceCriteria userStory)))"
    using fetchUserStory_criteria [OF assms(4)] by simp
  moreover have "filter (\<lambda>r. UserStoryId r = userStoryId) rtmData = processUserStory e userStoryId"
    by (rule rows_of_story [OF assms(1,2,3)])
  moreover have "covered_row userStoryId userStory =
      (\<lambda>testCase.
         \<lparr> UserStoryId = userStoryId,
           Feature = us_title userStory,
           ScenarioType = (if truthy (tc_scenarioType testCase) then tc_scenarioType testCase
                           else JStr ''Functional''),
           Description = (if truthy (tc_description testCase) then tc_description testCase
                          else tc_title testCase),
           TestCaseId = tc_id testCase,
           Status = ''Covered'',
           Priority = mapPriority (tc_priority testCase),
           Execution = tc_executionStatus testCase \<rparr>)"
    by (rule ext) (simp add: covered_row_def js_or_def)
  ultimately show ?thesis
    using processUserStory_criteria [OF assms(4,5,6)]
    by (simp add: missing_row_def Let_def cong: if_cong)
qed

theorem story_with_test_cases_witness:
  "generateRTM example_env (seq_schedule 1) [100] =
     Some (Inr [\<lparr> UserStoryId = 100, Feature = JStr ''Login'', ScenarioType = JStr ''Functional'',
                  Description = JStr ''Log in with password'', TestCaseId = JNum 501, Status = ''Covered'',
                  Priority = ''High'', Execution = ''Pass'' \<rparr>,
                \<lparr> UserStoryId = 100, Feature = JStr ''Login'', ScenarioType = JStr ''Functional'',
                  Description = JStr ''can log out'', TestCaseId = JStr '''', Status = ''Missing'',
                  Priority = ''Medium'', Execution = '''' \<rparr>])
   \<and> map tc_id (fetchRelatedTestCases example_env 100) = [JNum 501, JNum 502]
   \<and> map fst (Object_entries (us_acceptanceCriteria (the (fetchUserStory example_env 100)))) = [1, 2]
   \<and> sorted_wrt (<) (map fst (Object_entries (us_acceptanceCriteria (the (fetchUserStory example_env 100)))))"
proof -
  let ?rows = "[\<lparr> UserStoryId = 100, Feature = JStr ''Login'', ScenarioType = JStr ''Functional'',
                  Description = JStr ''Log in with password'', TestCaseId = JNum 501, Status = ''Covered'',
                  Priority = ''High'', Execution = ''Pass'' \<rparr>,
                \<lparr> UserStoryId = 100, Feature = JStr ''Login'', ScenarioType = JStr ''Functional'',
                  Description = JStr ''can log out'', TestCaseId = JStr '''', Status = ''Missing'',
                  Priority = ''Medium'', Execution = '''' \<rparr>]"
  let ?us = "\<lparr> us_id = JNum 100, us_title = JStr ''Login'', us_description = JStr '''',
                us_state = JStr '''', us_priority = JNum 2, us_feature = JStr ''Login'',
                us_tags = JStr '''', us_acceptanceCriteria = [(1, ''can log in''), (2, ''can log out'')] \<rparr>"
  let ?tcs = "[\<lparr> tc_id = JNum 501, tc_title = JStr ''Log in with password'', tc_description = JStr '''',
                  tc_state = JStr ''Done'', tc_priority = JNum 1, tc_executionStatus = ''Pass'',
                  tc_steps = JStr '''', tc_acceptanceCriteria = JNum 1, tc_scenarioType = JStr '''' \<rparr>,
                \<lparr> tc_id = JNum 502, tc_title = JStr ''Log out'', tc_description = JStr '''',
                  tc_state = JStr ''Design'', tc_priority = JStr ''Medium'', tc_executionStatus = ''Fail'',
                  tc_steps = JStr '''', tc_acceptanceCriteria = JStr ''2'', tc_scenarioType = JStr '''' \<rparr>]"
  have h1: "generateRTM example_env (seq_schedule 1) [100] = Some (Inr ?rows)" by code_simp
  have h2: "(100 :: int) \<noteq> 0" by simp
  have h3: "count_list [100 :: int] 100 = 1" by simp
  have h4: "fetchUserStory example_env 100 = Some ?us" by code_simp
  have h5: "fetchRelatedTestCases example_env 100 = ?tcs" by code_simp
  have h6: "?tcs \<noteq> []" by simp
  have "sorted_wrt (<) (map fst (Object_entries (us_acceptanceCriteria ?us)))"
    using story_with_test_cases [OF h1 h2 h3 h4 h5 h6] by (rule conjunct2)
  moreover have "map fst (Object_entries (us_acceptanceCriteria ?us)) = [1, 2]" by code_simp
  ultimately show ?thesis using h1 h4 h5 by simp
qed

section \<open>Coverage invariant\<close>

lemma processUserStory_invariant:
  assumes "r \<in> set (processUserStory e userStoryId)"
  shows "(Status r = ''Covered''
            \<and> (\<exists>testCaseId workItemData.
                   axios_get e (GetWorkItem testCaseId) = Inr workItemData \<and> TestCaseId r = wi_id workItemData)
            \<and> Execution r \<in> {''Pass'', ''Fail''})
         \<or> (Status r = ''Missing'' \<and> TestCaseId r = JStr '''' \<and> Execution r = '''')"
proof -
  from processUserStory_cases [OF assms] consider
    (story) userStory where "r = story_row userStoryId userStory"
  | (missing) userStory criteria where "r = missing_row userStoryId userStory criteria"
  | (covered) userStory testCase where "testCase \<in> set (fetchRelatedTestCases e userStoryId)"
      and "r = covered_row userStoryId userStory testCase"
    by blast
  then show ?thesis
  proof cases
    case story
    then show ?thesis by (simp add: story_row_def)
  next
    case missing
    then show ?thesis by (simp add: missing_row_def)
  next
    case covered
    from related_reply [OF covered(1)] obtain testCaseId where
      "fetchTestCase e testCaseId = Some testCase" by blast
    from fetchTestCase_reply [OF this] obtain workItemData where
      "axios_get e (GetWorkItem testCaseId) = Inr workItemData" "tc_id testCase = wi_id workItemData"
      "tc_executionStatus testCase \<in> {''Pass'', ''Fail''}" by blast
    then show ?thesis using covered(2) by (auto simp: covered_row_def)
  qed
qed

text \<open>
  Claim C2, as the code has it.  Every row of a matrix that \<open>generateRTM\<close> returns is a
  Missing row with an empty Test Case ID and an empty Execution, or a Covered row with
  Execution Pass or Fail whose Test Case ID is the \<open>id\<close> of the backend's reply for its
  test case, copied unchecked.  So a row with a Test Case ID present (not the empty
  string, \<open>undefined\<close> or \<open>null\<close>) is Covered, and a row with a non-empty Execution is
  Covered; a Covered row has its Test Case ID present whenever the reply for its test case
  holds an \<open>id\<close>, and Covered and present Test Case ID coincide for a backend all of
  whose replies hold one.
\<close>

theorem coverage_invariant:
  assumes "generateRTM e sched userStoryIds = Some (Inr rtmData)" and "r \<in> set rtmData"
  shows "(TestCaseId r \<notin> {JStr '''', JUndefined, JNull} \<longrightarrow> Status r = ''Covered'')
         \<and> (Execution r \<noteq> '''' \<longrightarrow> Status r = ''Covered'')
         \<and> (Status r = ''Covered'' \<longrightarrow>
               (\<exists>testCaseId workItemData.
                   axios_get e (GetWorkItem testCaseId) = Inr workItemData \<and> TestCaseId r = wi_id workItemData)
               \<and> Execution r \<in> {''Pass'', ''Fail''})
         \<and> (Status r \<noteq> ''Covered'' \<longrightarrow>
               Status r = ''Missing'' \<and> TestCaseId r = JStr '''' \<and> Execution r = '''')
         \<and> ((\<forall>request workItemData. axios_get e request = Inr workItemData \<longrightarrow>
                 wi_id workItemData \<notin> {JStr '''', JUndefined, JNull}) \<longrightarrow>
              (Status r = ''Covered'' \<longleftrightarrow> TestCaseId r \<notin> {JStr '''', JUndefined, JNull}))"
proof -
  obtain finished where "rtmData = concat (map (processUserStory e) finished)"
    using generateRTM_rows [OF assms(1)] by blast
  then obtain userStoryId where "r \<in> set (processUserStory e userStoryId)"
    using assms(2) by auto
  from processUserStory_invariant [OF this] show ?thesis
  proof
    assume c: "Status r = ''Covered''
            \<and> (\<exists>testCaseId workItemData.
                   axios_get e (GetWorkItem testCaseId) = Inr workItemData \<and> TestCaseId r = wi_id workItemData)
            \<and> Execution r \<in> {''Pass'', ''Fail''}"
    then show ?thesis by metis
  next
    assume m: "Status r = ''Missing'' \<and> TestCaseId r = JStr '''' \<and> Execution r = ''''"
    then have "Status r \<noteq> ''Covered''" by simp
    then show ?thesis using m by simp
  qed
qed

theorem coverage_invariant_witness:
  "generateRTM example_env (seq_schedule 1) [100] = Some (Inr [covered_example, missing_example])
   \<and> axios_get example_env (GetWorkItem (Some 501)) = Inr case501 \<and> wi_id case501 = JNum 501
   \<and> TestCaseId covered_example = JNum 501 \<and> Execution covered_example = ''Pass''
   \<and> Status covered_example = ''Covered''
   \<and> Status missing_example = ''Missing'' \<and> TestCaseId missing_example = JStr ''''
   \<and> Execution missing_example = ''''"
proof -
  have h1: "generateRTM example_env (seq_schedule 1) [100] = Some (Inr [covered_example, missing_example])"
    by code_simp
  have h2: "covered_example \<in> set [covered_example, missing_example]"
    and h3: "missing_example \<in> set [covered_example, missing_example]" by simp_all
  have ids: "\<forall>request workItemData. axios_get example_env request = Inr workItemData \<longrightarrow>
         wi_id workItemData \<notin> {JStr '''', JUndefined, JNull}"
    by (auto simp: example_env_def example_get_def story100_def story200_def story300_def
        case501_def case502_def split: if_splits)
  have p: "TestCaseId covered_example \<notin> {JStr '''', JUndefined, JNull}"
    and t: "TestCaseId covered_example = JNum 501" and x: "Execution covered_example = ''Pass''"
    by (simp_all add: covered_example_def)
  have n: "Status missing_example \<noteq> ''Covered''" by (simp add: missing_example_def)
  note C = coverage_invariant [OF h1 h2]
  note M = coverage_invariant [OF h1 h3]
  have "Status covered_example = ''Covered'' \<longleftrightarrow> TestCaseId covered_example \<notin> {JStr '''', JUndefined, JNull}"
    by (rule C [THEN conjunct2, THEN conjunct2, THEN conjunct2, THEN conjunct2, THEN mp, OF ids])
  then have c: "Status covered_example = ''Covered''" using p by (rule iffD2)
  have m: "Status missing_example = ''Missing'' \<and> TestCaseId missing_example = JStr '''' \<and> Execution missing_example = ''''"
    by (rule M [THEN conjunct2, THEN conjunct2, THEN conjunct2, THEN conjunct1, THEN mp, OF n])
  from m have m1: "Status missing_example = ''Missing''" by (rule conjunct1)
  from m have m2: "TestCaseId missing_example = JStr ''''" by (rule conjunct2 [THEN conjunct1])
  from m have m3: "Execution missing_example = ''''" by (rule conjunct2 [THEN conjunct2])
  have g: "axios_get example_env (GetWorkItem (Some 501)) = Inr case501"
    by (simp add: example_env_def example_get_def)
  have i: "wi_id case501 = JNum 501" by (simp add: case501_def)
  from h1 g i t x c m1 m2 m3 show ?thesis by (intro conjI)
qed

text \<open>
  The claim as stated fails: the reply for the test case of user story 400 holds no
  \<open>id\<close>, and the matrix has a Covered row whose Test Case ID is \<open>undefined\<close>.
\<close>

theorem coverage_invariant_counterexample:
  "axios_get noid_env (GetWorkItem (Some 601)) = Inr case601
   \<and> wi_id case601 = JUndefined
   \<and> map Status (projr (the (generateRTM noid_env (seq_schedule 1) [400]))) = [''Covered'', ''Missing'']
   \<and> map TestCaseId (projr (the (generateRTM noid_env (seq_schedule 1) [400]))) = [JUndefined, JStr '''']
   \<and> map Execution (projr (the (generateRTM noid_env (seq_schedule 1) [400]))) = [''Pass'', '''']"
proof -
  have a: "axios_get noid_env (GetWorkItem (Some 601)) = Inr case601"
    by (simp add: noid_env_def noid_get_def)
  have b: "wi_id case601 = JUndefined" by (simp add: case601_def)
  have c: "map Status (projr (the (generateRTM noid_env (seq_schedule 1) [400]))) = [''Covered'', ''Missing'']"
    by code_simp
  have d: "map TestCaseId (projr (the (generateRTM noid_env (seq_schedule 1) [400]))) = [JUndefined, JStr '''']"
    by code_simp
  have e: "map Execution (projr (the (generateRTM noid_env (seq_schedule 1) [400]))) = [''Pass'', '''']"
    by code_simp
  from a b c d e show ?thesis by (intro conjI)
qed

section \<open>Requirements without test cases\<close>

lemma mapPriority_default: "mapPriority (js_or v (JStr ''Medium'')) = mapPriority v"
proof (cases "truthy v")
  case True
  then show ?thesis by (simp add: js_or_def)
next
  case False
  have m: "mapPriority (JStr ''Medium'') = ''Medium''"
    by (simp add: mapPriority_def toLowerCase_def lower_char_def)
  from False have "mapPriority v = ''Medium''"
    by (cases v) (auto simp: mapPriority_def toLowerCase_def lower_char_def int_to_dec_def digit_char_def)
  then show ?thesis using False m by (simp add: js_or_def)
qed

text \<open>
  Claim C3.  A requirement that \<open>generateRTM\<close> fetches (its id is requested once and is
  not the falsy id 0) and that has no linked test case gets exactly one row: Status
  Missing, the scenario type of the Classifier on the requirement's title, description
  and tags, the title as Description, \<open>mapPriority\<close> of the requirement's priority as
  Priority (which is \<open>mapPriority\<close> of the raw priority field), an empty Test Case ID and
  an empty Execution.
\<close>

theorem story_without_test_cases:
  assumes "generateRTM e sched userStoryIds = Some (Inr rtmData)"
    and "userStoryId \<noteq> 0" and "count_list userStoryIds userStoryId = 1"
    and "makeApiRequest e (GetWorkItem (Some userStoryId)) = Some workItemData"
    and "fetchUserStory e userStoryId = Some userStory"
    and "fetchRelatedTestCases e userStoryId = []"
  shows "filter (\<lambda>r. UserStoryId r = userStoryId) rtmData =
           [\<lparr> UserStoryId = userStoryId,
               Feature = us_feature userStory,
               ScenarioType = JStr (determineScenarioType (us_title userStory) (us_description userStory) (us_tags userStory)),
               Description = us_title userStory,
               TestCaseId = JStr '''',
               Status = ''Missing'',
               Priority = mapPriority (field workItemData ''Microsoft.VSTS.Common.Priority''),
               Execution = '''' \<rparr>]"
proof -
  have "us_priority userStory = js_or (field workItemData ''Microsoft.VSTS.Common.Priority'') (JStr ''Medium'')"
    using assms(4,5) by (auto simp: fetchUserStory_def Let_def split: option.splits if_splits)
  then have "mapPriority (us_priority userStory) = mapPriority (field workItemData ''Microsoft.VSTS.Common.Priority'')"
    by (simp add: mapPriority_default)
  moreover have "processUserStory e userStoryId = [story_row userStoryId userStory]"
    using assms(5,6) by (simp add: processUserStory_def)
  ultimately show ?thesis
    using rows_of_story [OF assms(1,2,3)] by (simp add: story_row_def)
qed

theorem story_without_test_cases_witness:
  "generateRTM example_env (seq_schedule 1) [200] =
     Some (Inr [\<lparr> UserStoryId = 200, Feature = JStr ''Export report'', ScenarioType = JStr ''Performance'',
                  Description = JStr ''Export report'', TestCaseId = JStr '''', Status = ''Missing'',
                  Priority = ''Medium'', Execution = '''' \<rparr>])
   \<and> fetchRelatedTestCases example_env 200 = []
   \<and> filter (\<lambda>r. UserStoryId r = 200)
        [\<lparr> UserStoryId = 200, Feature = JStr ''Export report'', ScenarioType = JStr ''Performance'',
           Description = JStr ''Export report'', TestCaseId = JStr '''', Status = ''Missing'',
           Priority = ''Medium'', Execution = '''' \<rparr>]
      = [\<lparr> UserStoryId = 200, Feature = JStr ''Export report'',
           ScenarioType = JStr (determineScenarioType (JStr ''Export report'') (JStr '''') (JStr ''performance'')),
           Description = JStr ''Export report'', TestCaseId = JStr '''', Status = ''Missing'',
           Priority = mapPriority (field story200 ''Microsoft.VSTS.Common.Priority''), Execution = '''' \<rparr>]"
proof -
  let ?row = "\<lparr> UserStoryId = 200, Feature = JStr ''Export report'', ScenarioType = JStr ''Performance'',
                  Description = JStr ''Export report'', TestCaseId = JStr '''', Status = ''Missing'',
                  Priority = ''Medium'', Execution = '''' \<rparr>"
  let ?us = "\<lparr> us_id = JNum 200, us_title = JStr ''Export report'', us_description = JStr '''',
                us_state = JStr '''', us_priority = JStr ''Medium'', us_feature = JStr ''Export report'',
                us_tags = JStr ''performance'', us_acceptanceCriteria = [] \<rparr>"
  have h1: "generateRTM example_env (seq_schedule 1) [200] = Some (Inr [?row])" by code_simp
  have h2: "(200 :: int) \<noteq> 0" by simp
  have h3: "count_list [200 :: int] 200 = 1" by simp
  have h4: "makeApiRequest example_env (GetWorkItem (Some 200)) = Some story200"
    by (simp add: makeApiRequest_def example_env_def example_get_def)
  have h5: "fetchUserStory example_env 200 = Some ?us" by code_simp
  have h6: "fetchRelatedTestCases example_env 200 = []" by code_simp
  show ?thesis
    using h1 h6 story_without_test_cases [OF h1 h2 h3 h4 h5 h6] by simp
qed

section \<open>Feature label\<close>

lemma processUserStory_feature:
  assumes "fetchUserStory e userStoryId = Some userStory" and "r \<in> set (processUserStory e userStoryId)"
  shows "Feature r = (if fetchRelatedTestCases e userStoryId = [] then us_feature userStory else us_title userStory)"
proof (cases "fetchRelatedTestCases e userStoryId = []")
  case True
  then show ?thesis using assms by (simp add: processUserStory_def story_row_def)
next
  case False
  then obtain entry where
    "r \<in> set (criterion_rows userStoryId userStory (testCasesMap (fetchRelatedTestCases e userStoryId)) entry)"
    using assms by (auto simp: processUserStory_def Let_def)
  then have "Feature r = us_title userStory"
    by (cases entry) (auto simp: criterion_rows_def Let_def missing_row_def covered_row_def split: if_splits)
  then show ?thesis using False by simp
qed

text \<open>
  Claim C4, as the code has it.  The feature label of a fetched requirement is its title
  whenever the title is not empty; only with an empty title is it the last segment of the
  area path, and the empty string when there is no area path.  The single row of a
  requirement without test cases carries this label; the rows of a requirement with test
  cases carry the title.
\<close>

theorem feature_label:
  assumes "makeApiRequest e (GetWorkItem (Some userStoryId)) = Some workItemData"
    and "fetchUserStory e userStoryId = Some userStory"
  shows "us_feature userStory =
           (if us_title userStory \<noteq> JStr '''' then us_title userStory
            else (case field workItemData ''System.AreaPath'' of
                    JStr areaPath \<Rightarrow> JStr (last (split_on (CHR 0x5C) areaPath))
                  | _ \<Rightarrow> JStr ''''))
         \<and> (\<forall>r \<in> set (processUserStory e userStoryId).
               Feature r = (if fetchRelatedTestCases e userStoryId = [] then us_feature userStory
                            else us_title userStory))"
proof -
  let ?title = "field workItemData ''System.Title''"
  let ?area = "field workItemData ''System.AreaPath''"
  have t: "us_title userStory = js_or ?title (JStr '''')"
    using assms by (auto simp: fetchUserStory_def Let_def split: option.splits if_splits)
  have "us_feature userStory =
           (if us_title userStory \<noteq> JStr '''' then us_title userStory
            else (case ?area of JStr areaPath \<Rightarrow> JStr (last (split_on (CHR 0x5C) areaPath)) | _ \<Rightarrow> JStr ''''))"
  proof (cases "truthy ?title")
    case True
    then have "us_feature userStory = ?title" "us_title userStory = ?title" "?title \<noteq> JStr ''''"
      using assms by (auto simp: fetchUserStory_def Let_def js_or_def split: option.splits if_splits)
    then show ?thesis by simp
  next
    case False
    then have e: "us_title userStory = JStr ''''" using t by (simp add: js_or_def)
    show ?thesis
    proof (cases "truthy ?area")
      case True
      then show ?thesis
        using assms False e
        by (cases ?area) (auto simp: fetchUserStory_def Let_def js_or_def split: option.splits if_splits)
    next
      case nt: False
      then have "us_feature userStory = JStr ''''"
        using assms False
        by (auto simp: fetchUserStory_def Let_def js_or_def split: option.splits if_splits)
      moreover have "(case ?area of JStr areaPath \<Rightarrow> JStr (last (split_on (CHR 0x5C) areaPath)) | _ \<Rightarrow> JStr '''') = JStr ''''"
        using nt by (cases ?area) auto
      ultimately show ?thesis using e by simp
    qed
  qed
  then show ?thesis using processUserStory_feature [OF assms(2)] by blast
qed

theorem feature_label_witness:
  "makeApiRequest example_env (GetWorkItem (Some 100)) = Some story100
   \<and> map_option us_feature (fetchUserStory example_env 100) = Some (JStr ''Login'')
   \<and> map_option us_title (fetchUserStory example_env 100) = Some (JStr ''Login'')
   \<and> map Feature (processUserStory example_env 100) = [JStr ''Login'', JStr ''Login'']"
proof -
  let ?us = "\<lparr> us_id = JNum 100, us_title = JStr ''Login'', us_description = JStr '''',
                us_state = JStr '''', us_priority = JNum 2, us_feature = JStr ''Login'',
                us_tags = JStr '''', us_acceptanceCriteria = [(1, ''can log in''), (2, ''can log out'')] \<rparr>"
  have h1: "makeApiRequest example_env (GetWorkItem (Some 100)) = Some story100"
    by (simp add: makeApiRequest_def example_env_def example_get_def)
  have h2: "fetchUserStory example_env 100 = Some ?us" by code_simp
  have "us_feature ?us = (if us_title ?us \<noteq> JStr '''' then us_title ?us
            else (case field story100 ''System.AreaPath'' of
                    JStr areaPath \<Rightarrow> JStr (last (split_on (CHR 0x5C) areaPath))
                  | _ \<Rightarrow> JStr ''''))"
    by (rule feature_label [OF h1 h2, THEN conjunct1])
  then have "us_feature ?us = JStr ''Login''" by simp
  moreover have "map Feature (processUserStory example_env 100) = [JStr ''Login'', JStr ''Login'']"
    by code_simp
  ultimately show ?thesis using h1 h2 by simp
qed

text \<open>
  The claim as stated fails: user story 100 has the area path \<open>Shop\Accounts\<close>, whose last
  segment is \<open>Accounts\<close>, and the title \<open>Login\<close>; its feature label is \<open>Login\<close>.
\<close>

theorem feature_label_counterexample:
  "field story100 ''System.AreaPath'' = JStr (''Shop'' @ [CHR 0x5C] @ ''Accounts'')
   \<and> last (split_on (CHR 0x5C) (''Shop'' @ [CHR 0x5C] @ ''Accounts'')) = ''Accounts''
   \<and> map_option us_feature (fetchUserStory example_env 100) = Some (JStr ''Login'')
   \<and> map_option us_feature (fetchUserStory example_env 100) \<noteq> Some (JStr ''Accounts'')"
proof -
  have a: "field story100 ''System.AreaPath'' = JStr (''Shop'' @ [CHR 0x5C] @ ''Accounts'')"
    by (simp add: field_def story100_def)
  have b: "last (split_on (CHR 0x5C) (''Shop'' @ [CHR 0x5C] @ ''Accounts'')) = ''Accounts''"
    by simp
  have c: "map_option us_feature (fetchUserStory example_env 100) = Some (JStr ''Login'')"
    by code_simp
  have d: "map_option us_feature (fetchUserStory example_env 100) \<noteq> Some (JStr ''Accounts'')"
    unfolding c by simp
  from a b c d show ?thesis by (intro conjI)
qed

section \<open>Invocations of the worker function\<close>

text \<open>
  Claim C5 on the code.  \<open>parallel\<close> calls the worker function only \<open>if (item)\<close>, so an
  index that holds a falsy item is taken from the iterator and the function is not invoked
  for it.  On the list \<open>[0]\<close> the call resolves without any invocation.  On the list
  \<open>[3, 2, 1, 0]\<close>, which \<open>calculateCoverageTrend\<close> passes for four weeks, with the default
  limit 5, the call resolves after three invocations, none of them for the item \<open>0\<close>.
\<close>

theorem parallel_skips_falsy_item:
  "settled (parallel number_truthy [0] count_worker 1 0 [0, 0]) = Some (Inr ())
   \<and> calls (parallel number_truthy [0] count_worker 1 0 [0, 0]) = []
   \<and> store (parallel number_truthy [0] count_worker 1 0 [0, 0]) = 0
   \<and> settled (parallel number_truthy [3, 2, 1, 0] count_worker 5 0 [0, 1, 2, 3, 3, 4, 0, 0, 1, 1, 2, 2]) = Some (Inr ())
   \<and> calls (parallel number_truthy [3, 2, 1, 0] count_worker 5 0 [0, 1, 2, 3, 3, 4, 0, 0, 1, 1, 2, 2])
        = [(3, 0), (2, 1), (1, 2)]
   \<and> store (parallel number_truthy [3, 2, 1, 0] count_worker 5 0 [0, 1, 2, 3, 3, 4, 0, 0, 1, 1, 2, 2]) = 3"
  by code_simp

section \<open>Failures of the backend\<close>

lemma request_failure_absorbed:
  "axios_get e request = Inl err \<Longrightarrow> makeApiRequest e request = None"
  by (simp add: makeApiRequest_def)

lemma related_is_test_case:
  assumes "testCase \<in> set (fetchRelatedTestCases e userStoryId)"
  shows "\<exists>testCaseId workItemData.
           axios_get e (GetWorkItem testCaseId) = Inr workItemData
           \<and> field workItemData ''System.WorkItemType'' = JStr ''Test Case''
           \<and> fetchTestCase e testCaseId = Some testCase"
proof -
  from related_reply [OF assms] obtain testCaseId where f: "fetchTestCase e testCaseId = Some testCase"
    by blast
  then obtain workItemData where "axios_get e (GetWorkItem testCaseId) = Inr workItemData"
    and "field workItemData ''System.WorkItemType'' = JStr ''Test Case''"
    by (auto simp: fetchTestCase_def makeApiRequest_def split: sum.splits if_splits)
  then show ?thesis using f by blast
qed

text \<open>
  Claim C6, as the code has it.  \<open>generateRTM\<close> never propagates a failure of the backend
  to its caller, batch-level or item-level, and it returns its matrix once the requests
  have settled: \<open>makeApiRequest\<close> catches every failure of a request.  A requirement whose
  request fails, or whose work item is not a User Story, is skipped and contributes no
  row.  A linked test case whose request fails, or whose work item is not a Test Case, is
  skipped: every test case a requirement is reconciled against comes from a successful
  request for a Test Case, and a failed request for the links of a requirement leaves it
  without test cases.  A backend that fails every request gives the empty matrix.
\<close>

theorem generateRTM_absorbs_failures:
  "generateRTM e sched userStoryIds \<noteq> Some (Inl err)
   \<and> (\<exists>rtmData. generateRTM e (seq_schedule (length userStoryIds)) userStoryIds = Some (Inr rtmData))
   \<and> (axios_get e (GetWorkItem (Some userStoryId)) = Inl err \<longrightarrow> processUserStory e userStoryId = [])
   \<and> (\<forall>workItemData.
         axios_get e (GetWorkItem (Some userStoryId)) = Inr workItemData
         \<and> field workItemData ''System.WorkItemType'' \<noteq> JStr ''User Story'' \<longrightarrow>
         processUserStory e userStoryId = [])
   \<and> (axios_get e (GetWorkItem testCaseId) = Inl err \<longrightarrow> fetchTestCase e testCaseId = None)
   \<and> (\<forall>workItemData.
         axios_get e (GetWorkItem testCaseId) = Inr workItemData
         \<and> field workItemData ''System.WorkItemType'' \<noteq> JStr ''Test Case'' \<longrightarrow>
         fetchTestCase e testCaseId = None)
   \<and> (\<forall>testCase \<in> set (fetchRelatedTestCases e userStoryId).
         \<exists>testCaseId workItemData.
           axios_get e (GetWorkItem testCaseId) = Inr workItemData
           \<and> field workItemData ''System.WorkItemType'' = JStr ''Test Case''
           \<and> fetchTestCase e testCaseId = Some testCase)
   \<and> (axios_get e (GetWorkItemRelations userStoryId) = Inl err \<longrightarrow> fetchRelatedTestCases e userStoryId = [])
   \<and> ((\<forall>request. \<exists>failure. axios_get e request = Inl failure) \<longrightarrow>
        (\<forall>rtmData. generateRTM e sched userStoryIds = Some (Inr rtmData) \<longrightarrow> rtmData = []))"
proof -
  have a: "axios_get e (GetWorkItem (Some userStoryId)) = Inl err \<longrightarrow> processUserStory e userStoryId = []"
    by (simp add: processUserStory_def fetchUserStory_def request_failure_absorbed)
  have a': "\<forall>workItemData.
         axios_get e (GetWorkItem (Some userStoryId)) = Inr workItemData
         \<and> field workItemData ''System.WorkItemType'' \<noteq> JStr ''User Story'' \<longrightarrow>
         processUserStory e userStoryId = []"
    by (simp add: processUserStory_def fetchUserStory_def makeApiRequest_def)
  have b: "axios_get e (GetWorkItem testCaseId) = Inl err \<longrightarrow> fetchTestCase e testCaseId = None"
    by (simp add: fetchTestCase_def request_failure_absorbed)
  have b': "\<forall>workItemData.
         axios_get e (GetWorkItem testCaseId) = Inr workItemData
         \<and> field workItemData ''System.WorkItemType'' \<noteq> JStr ''Test Case'' \<longrightarrow>
         fetchTestCase e testCaseId = None"
    by (simp add: fetchTestCase_def makeApiRequest_def)
  have r: "\<forall>testCase \<in> set (fetchRelatedTestCases e userStoryId).
         \<exists>testCaseId workItemData.
           axios_get e (GetWorkItem testCaseId) = Inr workItemData
           \<and> field workItemData ''System.WorkItemType'' = JStr ''Test Case''
           \<and> fetchTestCase e testCaseId = Some testCase"
    by (intro ballI related_is_test_case)
  have l: "axios_get e (GetWorkItemRelations userStoryId) = Inl err \<longrightarrow> fetchRelatedTestCases e userStoryId = []"
    by (simp add: fetchRelatedTestCases_def request_failure_absorbed)
  have c: "(\<forall>request. \<exists>failure. axios_get e request = Inl failure) \<longrightarrow>
        (\<forall>rtmData. generateRTM e sched userStoryIds = Some (Inr rtmData) \<longrightarrow> rtmData = [])"
  proof (intro impI allI)
    fix rtmData
    assume down: "\<forall>request. \<exists>failure. axios_get e request = Inl failure"
      and ret: "generateRTM e sched userStoryIds = Some (Inr rtmData)"
    have "\<And>i. processUserStory e i = []"
    proof -
      fix i
      from down obtain failure where "axios_get e (GetWorkItem (Some i)) = Inl failure" by blast
      then show "processUserStory e i = []"
        by (simp add: processUserStory_def fetchUserStory_def request_failure_absorbed)
    qed
    moreover obtain finished where "rtmData = concat (map (processUserStory e) finished)"
      using generateRTM_rows [OF ret] by blast
    ultimately show "rtmData = []" by simp
  qed
  have t: "generateRTM e sched userStoryIds \<noteq> Some (Inl err)"
    by (rule generateRTM_never_throws)
  have u: "\<exists>rtmData. generateRTM e (seq_schedule (length userStoryIds)) userStoryIds = Some (Inr rtmData)"
    by (rule generateRTM_returns)
  from t u a a' b b' r l c show ?thesis by (intro conjI)
qed

theorem generateRTM_absorbs_failures_witness:
  "axios_get unreachable_env (GetWorkItem (Some 100)) = Inl NetworkError
   \<and> axios_get unreachable_env (GetWorkItemRelations 100) = Inl NetworkError
   \<and> processUserStory unreachable_env 100 = []
   \<and> fetchRelatedTestCases unreachable_env 100 = []
   \<and> generateRTM unreachable_env (seq_schedule 1) [100] = Some (Inr [])
   \<and> axios_get flaky_env (GetWorkItem (Some 501)) = Inl (HttpStatus 404)
   \<and> fetchTestCase flaky_env (Some 501) = None
   \<and> axios_get example_env (GetWorkItem (Some 501)) = Inr case501
   \<and> field case501 ''System.WorkItemType'' \<noteq> JStr ''User Story''
   \<and> processUserStory example_env 501 = []
   \<and> axios_get example_env (GetWorkItem (Some 100)) = Inr story100
   \<and> field story100 ''System.WorkItemType'' \<noteq> JStr ''Test Case''
   \<and> fetchTestCase example_env (Some 100) = None
   \<and> map tc_id (fetchRelatedTestCases example_env 100) = [JNum 501, JNum 502]"
proof -
  have u1: "axios_get unreachable_env (GetWorkItem (Some 100)) = Inl NetworkError"
    and u2: "axios_get unreachable_env (GetWorkItemRelations 100) = Inl NetworkError"
    and down: "\<forall>request. \<exists>failure. axios_get unreachable_env request = Inl failure"
    by (simp_all add: unreachable_env_def unreachable_get_def)
  note U = generateRTM_absorbs_failures [of unreachable_env "seq_schedule 1" "[100]" NetworkError 100 "Some 100"]
  have a: "processUserStory unreachable_env 100 = []"
    by (rule U [THEN conjunct2, THEN conjunct2, THEN conjunct1, THEN mp, OF u1])
  have l: "fetchRelatedTestCases unreachable_env 100 = []"
    by (rule U [THEN conjunct2, THEN conjunct2, THEN conjunct2, THEN conjunct2, THEN conjunct2, THEN conjunct2,
          THEN conjunct2, THEN conjunct1, THEN mp, OF u2])
  obtain rtmData where "generateRTM unreachable_env (seq_schedule (length [100 :: int])) [100] = Some (Inr rtmData)"
    using U [THEN conjunct2, THEN conjunct1] by blast
  then have r': "generateRTM unreachable_env (seq_schedule 1) [100] = Some (Inr rtmData)" by simp
  have "rtmData = []"
    using U [THEN conjunct2, THEN conjunct2, THEN conjunct2, THEN conjunct2, THEN conjunct2, THEN conjunct2,
          THEN conjunct2, THEN conjunct2, THEN mp, OF down] r' by blast
  then have c: "generateRTM unreachable_env (seq_schedule 1) [100] = Some (Inr [])" using r' by simp
  have f1: "axios_get flaky_env (GetWorkItem (Some 501)) = Inl (HttpStatus 404)"
    by (simp add: flaky_env_def flaky_get_def)
  note F = generateRTM_absorbs_failures [of flaky_env "seq_schedule 1" "[100]" "HttpStatus 404" 100 "Some 501"]
  have b: "fetchTestCase flaky_env (Some 501) = None"
    by (rule F [THEN conjunct2, THEN conjunct2, THEN conjunct2, THEN conjunct2, THEN conjunct1, THEN mp, OF f1])
  have e1: "axios_get example_env (GetWorkItem (Some 501)) = Inr case501"
    and e2: "axios_get example_env (GetWorkItem (Some 100)) = Inr story100"
    by (simp_all add: example_env_def example_get_def)
  have t1: "field case501 ''System.WorkItemType'' \<noteq> JStr ''User Story''"
    by (simp add: field_def case501_def)
  have t2: "field story100 ''System.WorkItemType'' \<noteq> JStr ''Test Case''"
    by (simp add: field_def story100_def)
  note E = generateRTM_absorbs_failures [of example_env "seq_schedule 1" "[100]" NetworkError 501 "Some 100"]
  have a': "processUserStory example_env 501 = []"
    using E [THEN conjunct2, THEN conjunct2, THEN conjunct2, THEN conjunct1, THEN spec, of case501] e1 t1
    by blast
  have b': "fetchTestCase example_env (Some 100) = None"
    using E [THEN conjunct2, THEN conjunct2, THEN conjunct2, THEN conjunct2, THEN conjunct2, THEN conjunct1,
          THEN spec, of story100] e2 t2
    by blast
  have m: "map tc_id (fetchRelatedTestCases example_env 100) = [JNum 501, JNum 502]" by code_simp
  from u1 u2 a l c f1 b e1 t1 a' e2 t2 b' m show ?thesis by (intro conjI)
qed

text \<open>
  The claim as stated fails twice.  With a backend that cannot be reached at all,
  \<open>generateRTM\<close> returns the empty matrix to its caller instead of throwing.  And an
  item-level failure does not merely remove rows: when the request for test case 501
  fails, the matrix of user story 100 has a Missing row for criterion 1 that the matrix
  without the failure does not have.
\<close>

theorem generateRTM_propagates_counterexample:
  "axios_get unreachable_env (GetWorkItem (Some 100)) = Inl NetworkError
   \<and> axios_get unreachable_env (GetWorkItemRelations 100) = Inl NetworkError
   \<and> generateRTM unreachable_env (seq_schedule 1) [100] = Some (Inr [])
   \<and> axios_get flaky_env (GetWorkItem (Some 501)) = Inl (HttpStatus 404)
   \<and> map Description (projr (the (generateRTM example_env (seq_schedule 1) [100])))
        = [JStr ''Log in with password'', JStr ''can log out'']
   \<and> map Status (projr (the (generateRTM example_env (seq_schedule 1) [100]))) = [''Covered'', ''Missing'']
   \<and> map Description (projr (the (generateRTM flaky_env (seq_schedule 1) [100])))
        = [JStr ''can log in'', JStr ''can log out'']
   \<and> map Status (projr (the (generateRTM flaky_env (seq_schedule 1) [100]))) = [''Missing'', ''Missing'']
   \<and> hd (projr (the (generateRTM flaky_env (seq_schedule 1) [100])))
        \<notin> set (projr (the (generateRTM example_env (seq_schedule 1) [100])))"
proof -
  have a: "axios_get unreachable_env (GetWorkItem (Some 100)) = Inl NetworkError"
    and b: "axios_get unreachable_env (GetWorkItemRelations 100) = Inl NetworkError"
    by (simp_all add: unreachable_env_def unreachable_get_def)
  have c: "generateRTM unreachable_env (seq_schedule 1) [100] = Some (Inr [])"
    by code_simp
  have d: "axios_get flaky_env (GetWorkItem (Some 501)) = Inl (HttpStatus 404)"
    by (simp add: flaky_env_def flaky_get_def)
  have e: "map Description (projr (the (generateRTM example_env (seq_schedule 1) [100])))
        = [JStr ''Log in with password'', JStr ''can log out'']"
    by code_simp
  have f: "map Status (projr (the (generateRTM example_env (seq_schedule 1) [100]))) = [''Covered'', ''Missing'']"
    by code_simp
  have g: "map Description (projr (the (generateRTM flaky_env (seq_schedule 1) [100])))
        = [JStr ''can log in'', JStr ''can log out'']"
    by code_simp
  have h: "map Status (projr (the (generateRTM flaky_env (seq_schedule 1) [100]))) = [''Missing'', ''Missing'']"
    by code_simp
  have i: "hd (projr (the (generateRTM flaky_env (seq_schedule 1) [100])))
        \<notin> set (projr (the (generateRTM example_env (seq_schedule 1) [100])))"
    by code_simp
  from a b c d e f g h i show ?thesis by (intro conjI)
qed

section \<open>Coverage statistics on the two surfaces\<close>

text \<open>
  Claim C7.  For every matrix, the KPI sheet written by \<open>exportToExcel\<close> holds, field by
  field, the statistics of the \<open>/rtm-download\<close> handler: total modules, total use cases,
  the four scenario-type counts, total covered, coverage percentage, pass and fail, for
  the whole matrix and for every feature in the same order.
\<close>

theorem kpi_surfaces_agree:
  "exportToExcel_kpi rtmData =
     [[Text ''Overall Coverage''],
      [Text ''Total Modules'', Number (int (totalModules (rtm_download rtmData)))],
      [Text ''Total Uses Cases'', Number (int (totalUseCases (rtm_download rtmData)))],
      [Text ''Positive'', Number (int (positive (rtm_download rtmData)))],
      [Text ''Negative'', Number (int (negative (rtm_download rtmData)))],
      [Text ''Edge Cases'', Number (int (edgeCases (rtm_download rtmData)))],
      [Text ''Integration'', Number (int (integration (rtm_download rtmData)))],
      [Text ''Total Covered'', Number (int (totalCovered (rtm_download rtmData)))],
      [Text ''Coverage %age'', Number (coveragePercentage (rtm_download rtmData))],
      [Text ''Pass'', Number (int (execution_pass (rtm_download rtmData)))],
      [Text ''Fail'', Number (int (execution_fail (rtm_download rtmData)))],
      [],
      [],
      [Text ''Module Wise Coverage'', Text '''', Text '''', Text '''', Text '''', Text '''', Text '''',
       Text '''', Text '''', Text ''''],
      [Text ''Feature'', Text ''Total Use Cases'', Text ''Positive Covered'', Text ''Negative Covered'',
       Text ''Edge Cases Covered'', Text ''Integration Cases Covered'', Text ''Total Covered'',
       Text ''Coverage %age'', Text ''Pass'', Text ''Fail'']]
     @ map (\<lambda>m. [Value (m_feature m),
                  Number (int (m_totalUseCases m)),
                  Number (int (m_positiveCovered m)),
                  Number (int (m_negativeCovered m)),
                  Number (int (m_edgeCasesCovered m)),
                  Number (int (m_integrationCovered m)),
                  Number (int (m_totalCovered m)),
                  Number (m_coveragePercentage m),
                  Number (int (m_pass m)),
                  Number (int (m_fail m))])
         (moduleWiseCoverage (rtm_download rtmData))"
  by (simp add: exportToExcel_kpi_def rtm_download_def exportToExcel_module_def
      rtm_download_module_def Let_def comp_def)

section \<open>Coverage percentage\<close>

text \<open>
  Claim C8, as the code has it.  The coverage percentage of a matrix, on the JSON surface
  and on the KPI sheet, is \<open>Math.round\<close> of the double \<open>(totalCovered / totalRows) * 100\<close>,
  and 0 when there are no rows.  For a matrix of fewer than \<open>2^32\<close> rows (the bound on
  the length of an array) it is the exact percentage \<open>100 * totalCovered / totalRows\<close>
  rounded to the nearest integer whenever the exact percentage is not halfway between two
  integers; when it is halfway, \<open>k + 1/2\<close>, the result is \<open>k\<close> or \<open>k + 1\<close>.  Ten rows
  with seven Covered give 70.
\<close>

theorem coverage_percentage:
  fixes rtmData :: "rtm_row list"
  defines "covered \<equiv> length (filter (\<lambda>row. Status row = ''Covered'') rtmData)"
    and "rows \<equiv> length rtmData"
  shows "coveragePercentage (rtm_download rtmData) = percentage covered rows
         \<and> exportToExcel_kpi rtmData ! 8 = [Text ''Coverage %age'', Number (percentage covered rows)]
         \<and> (rows = 0 \<longrightarrow> percentage covered rows = 0)
         \<and> (0 < rows \<and> rows < 2 ^ 32 \<longrightarrow>
               Math_round (of_nat covered / of_nat rows * 100) - 1 \<le> percentage covered rows
               \<and> percentage covered rows \<le> Math_round (of_nat covered / of_nat rows * 100))
         \<and> (0 < rows \<and> rows < 2 ^ 32 \<and> (200 * int covered + int rows) mod (2 * int rows) \<noteq> 0 \<longrightarrow>
               percentage covered rows = Math_round (of_nat covered / of_nat rows * 100))
         \<and> (rows = 10 \<and> covered = 7 \<longrightarrow> percentage covered rows = 70)"
proof -
  have le: "covered \<le> rows" by (simp add: covered_def rows_def)
  have a: "coveragePercentage (rtm_download rtmData) = percentage covered rows"
    by (simp add: rtm_download_def Let_def covered_def rows_def)
  have b: "exportToExcel_kpi rtmData ! 8 = [Text ''Coverage %age'', Number (percentage covered rows)]"
    by (simp add: exportToExcel_kpi_def Let_def covered_def rows_def)
  have c: "rows = 0 \<longrightarrow> percentage covered rows = 0"
    by (simp add: percentage_empty)
  have d: "0 < rows \<and> rows < 2 ^ 32 \<longrightarrow>
               Math_round (of_nat covered / of_nat rows * 100) - 1 \<le> percentage covered rows
               \<and> percentage covered rows \<le> Math_round (of_nat covered / of_nat rows * 100)"
  proof (intro impI)
    assume h: "0 < rows \<and> rows < 2 ^ 32"
    from h have h1: "0 < rows" by (rule conjunct1)
    from h have h2: "rows < 2 ^ 32" by (rule conjunct2)
    have q: "Math_round (of_nat covered / of_nat rows * 100) = (200 * int covered + int rows) div (2 * int rows)"
      by (rule Math_round_quotient [OF h1])
    show "Math_round (of_nat covered / of_nat rows * 100) - 1 \<le> percentage covered rows
          \<and> percentage covered rows \<le> Math_round (of_nat covered / of_nat rows * 100)"
      unfolding q
      using percentage_rounding(1) [OF h1 le h2] percentage_rounding(2) [OF h1 le h2] by (rule conjI)
  qed
  have e: "0 < rows \<and> rows < 2 ^ 32 \<and> (200 * int covered + int rows) mod (2 * int rows) \<noteq> 0 \<longrightarrow>
               percentage covered rows = Math_round (of_nat covered / of_nat rows * 100)"
  proof (intro impI)
    assume h: "0 < rows \<and> rows < 2 ^ 32 \<and> (200 * int covered + int rows) mod (2 * int rows) \<noteq> 0"
    from h have h1: "0 < rows" by (rule conjunct1)
    from h have h2: "rows < 2 ^ 32" by (rule conjunct2 [THEN conjunct1])
    from h have h3: "(200 * int covered + int rows) mod (2 * int rows) \<noteq> 0"
      by (rule conjunct2 [THEN conjunct2])
    have q: "Math_round (of_nat covered / of_nat rows * 100) = (200 * int covered + int rows) div (2 * int rows)"
      by (rule Math_round_quotient [OF h1])
    show "percentage covered rows = Math_round (of_nat covered / of_nat rows * 100)"
      unfolding q by (rule percentage_rounding(3) [OF h1 le h2 h3])
  qed
  have f: "rows = 10 \<and> covered = 7 \<longrightarrow> percentage covered rows = 70"
  proof
    assume "rows = 10 \<and> covered = 7"
    moreover have "percentage 7 10 = 70" by code_simp
    ultimately show "percentage covered rows = 70" by simp
  qed
  from a b c d e f show ?thesis by (intro conjI)
qed

theorem coverage_percentage_witness:
  "length (matrix_of 7 3) = 10
   \<and> length (filter (\<lambda>row. Status row = ''Covered'') (matrix_of 7 3)) = 7
   \<and> (200 * int 7 + int 10) mod (2 * int 10) \<noteq> 0
   \<and> Math_round (of_nat 7 / of_nat 10 * 100) = 70
   \<and> coveragePercentage (rtm_download (matrix_of 7 3)) = 70
   \<and> length (matrix_of 0 0) = 0
   \<and> coveragePercentage (rtm_download (matrix_of 0 0)) = 0"
proof -
  have r: "length (matrix_of 7 3) = 10" by (simp add: matrix_of_def)
  have c: "length (filter (\<lambda>row. Status row = ''Covered'') (matrix_of 7 3)) = 7"
    by (simp add: matrix_of_def covered_example_def missing_example_def)
  have m: "(200 * int 7 + int 10) mod (2 * int 10) \<noteq> 0" by simp
  have x: "Math_round (of_nat 7 / of_nat 10 * 100) = 70" by (simp add: Math_round_def floor_eq_iff)
  note T = coverage_percentage [of "matrix_of 7 3", unfolded r c]
  have h: "0 < (10 :: nat) \<and> (10 :: nat) < 2 ^ 32 \<and> (200 * int 7 + int 10) mod (2 * int 10) \<noteq> 0"
    by simp
  have "percentage 7 10 = Math_round (of_nat 7 / of_nat 10 * 100)"
    by (rule T [THEN conjunct2, THEN conjunct2, THEN conjunct2, THEN conjunct2, THEN conjunct1, THEN mp, OF h])
  then have p: "coveragePercentage (rtm_download (matrix_of 7 3)) = 70"
    using T [THEN conjunct1] x by simp
  have r0: "length (matrix_of 0 0) = 0" by (simp add: matrix_of_def)
  have c0: "length (filter (\<lambda>row. Status row = ''Covered'') (matrix_of 0 0)) = 0"
    by (simp add: matrix_of_def)
  note Z = coverage_percentage [of "matrix_of 0 0", unfolded r0 c0]
  have "percentage 0 0 = 0"
    by (rule Z [THEN conjunct2, THEN conjunct2, THEN conjunct1, THEN mp]) simp
  then have z: "coveragePercentage (rtm_download (matrix_of 0 0)) = 0"
    using Z [THEN conjunct1] by simp
  from r c m x p r0 z show ?thesis by (intro conjI)
qed

text \<open>
  The claim as stated fails: for 40 rows with 23 Covered the exact percentage is 57.5,
  which rounds to 58, and the code gives 57, since the double \<open>(23 / 40) * 100\<close> is
  \<open>57.49999999999999\<close>.
\<close>

theorem coverage_percentage_counterexample:
  "length (matrix_of 23 17) = 40
   \<and> length (filter (\<lambda>row. Status row = ''Covered'') (matrix_of 23 17)) = 23
   \<and> Math_round (of_nat 23 / of_nat 40 * 100) = 58
   \<and> coveragePercentage (rtm_download (matrix_of 23 17)) = 57"
proof -
  have a: "length (matrix_of 23 17) = 40" by (simp add: matrix_of_def)
  have b: "length (filter (\<lambda>row. Status row = ''Covered'') (matrix_of 23 17)) = 23"
    by (simp add: matrix_of_def covered_example_def missing_example_def)
  have c: "Math_round (of_nat 23 / of_nat 40 * 100) = 58" by (simp add: Math_round_def floor_eq_iff)
  have "percentage 23 40 = 57" by code_simp
  then have d: "coveragePercentage (rtm_download (matrix_of 23 17)) = 57"
    using a b by (simp add: rtm_download_def Let_def)
  from a b c d show ?thesis by (intro conjI)
qed

section \<open>Priority classification\<close>

lemma mapPriority_numbers:
  "mapPriority (JNum 1) = ''High''" "mapPriority (JNum 2) = ''Medium''"
  "mapPriority (JNum 3) = ''Low''" "mapPriority (JNum 4) = ''Low''"
  by (simp_all add: mapPriority_def toLowerCase_def lower_char_def int_to_dec_def digit_char_def)

lemma mapPriority_words:
  "mapPriority (JStr ''critical'') = ''High''" "mapPriority (JStr ''high'') = ''High''"
  "mapPriority (JStr ''medium'') = ''Medium''" "mapPriority (JStr ''normal'') = ''Medium''"
  "mapPriority (JStr ''low'') = ''Low''"
  by (simp_all add: mapPriority_def toLowerCase_def lower_char_def)

lemma mapPriority_range: "mapPriority v \<in> {''Low'', ''Medium'', ''High''}"
  by (simp add: mapPriority_def Let_def)

lemma mapPriority_by_text:
  "toLowerCase (js_toString v) \<in> {''1'', ''critical'', ''high''} \<Longrightarrow> mapPriority v = ''High''"
  "toLowerCase (js_toString v) \<in> {''2'', ''medium'', ''normal''} \<Longrightarrow> mapPriority v = ''Medium''"
  "toLowerCase (js_toString v) \<in> {''3'', ''4'', ''low''} \<Longrightarrow> mapPriority v = ''Low''"
  "toLowerCase (js_toString v) \<notin> {''1'', ''critical'', ''high'', ''2'', ''medium'', ''normal'', ''3'', ''4'', ''low''}
     \<Longrightarrow> mapPriority v = ''Medium''"
proof -
  have null: "toLowerCase (js_toString JNull) = ''null''"
    and undef: "toLowerCase (js_toString JUndefined) = ''undefined''"
    by (simp_all add: toLowerCase_def lower_char_def)
  show "toLowerCase (js_toString v) \<in> {''1'', ''critical'', ''high''} \<Longrightarrow> mapPriority v = ''High''"
    using null undef by (cases "v = JNull \<or> v = JUndefined") (auto simp: mapPriority_def)
  show "toLowerCase (js_toString v) \<in> {''2'', ''medium'', ''normal''} \<Longrightarrow> mapPriority v = ''Medium''"
    by (auto simp: mapPriority_def Let_def)
  show "toLowerCase (js_toString v) \<in> {''3'', ''4'', ''low''} \<Longrightarrow> mapPriority v = ''Low''"
    using null undef by (cases "v = JNull \<or> v = JUndefined") (auto simp: mapPriority_def)
  show "toLowerCase (js_toString v) \<notin> {''1'', ''critical'', ''high'', ''2'', ''medium'', ''normal'', ''3'', ''4'', ''low''}
     \<Longrightarrow> mapPriority v = ''Medium''"
    by (auto simp: mapPriority_def Let_def)
qed

text \<open>
  Claim C9.  \<open>mapPriority\<close> is a function defined on every value, with a result among
  Low, Medium and High: 1, "critical" and "high" give High; 2, "medium" and "normal" give
  Medium; 3, 4 and "low" give Low, all after stringifying and lower-casing; \<open>null\<close>,
  \<open>undefined\<close> and every text that is none of these give Medium.
\<close>

theorem mapPriority_total:
  "mapPriority v \<in> {''Low'', ''Medium'', ''High''}
   \<and> mapPriority (JNum 1) = ''High'' \<and> mapPriority (JStr ''critical'') = ''High''
   \<and> mapPriority (JStr ''high'') = ''High''
   \<and> mapPriority (JNum 2) = ''Medium'' \<and> mapPriority (JStr ''medium'') = ''Medium''
   \<and> mapPriority (JStr ''normal'') = ''Medium''
   \<and> mapPriority (JNum 3) = ''Low'' \<and> mapPriority (JNum 4) = ''Low''
   \<and> mapPriority (JStr ''low'') = ''Low''
   \<and> mapPriority JNull = ''Medium'' \<and> mapPriority JUndefined = ''Medium''
   \<and> (toLowerCase (js_toString v) \<in> {''1'', ''critical'', ''high''} \<longrightarrow> mapPriority v = ''High'')
   \<and> (toLowerCase (js_toString v) \<in> {''2'', ''medium'', ''normal''} \<longrightarrow> mapPriority v = ''Medium'')
   \<and> (toLowerCase (js_toString v) \<in> {''3'', ''4'', ''low''} \<longrightarrow> mapPriority v = ''Low'')
   \<and> (toLowerCase (js_toString v) \<notin> {''1'', ''critical'', ''high'', ''2'', ''medium'', ''normal'', ''3'', ''4'', ''low''}
        \<longrightarrow> mapPriority v = ''Medium'')"
proof -
  have "mapPriority JNull = ''Medium''" "mapPriority JUndefined = ''Medium''"
    by (simp_all add: mapPriority_def)
  then show ?thesis
    using mapPriority_range [of v] mapPriority_numbers mapPriority_words mapPriority_by_text [of v]
    by blast
qed

theorem mapPriority_total_witness:
  "toLowerCase (js_toString (JStr ''HIGH'')) \<in> {''1'', ''critical'', ''high''}
   \<and> mapPriority (JStr ''HIGH'') = ''High''
   \<and> toLowerCase (js_toString (JStr ''Normal'')) \<in> {''2'', ''medium'', ''normal''}
   \<and> mapPriority (JStr ''Normal'') = ''Medium''
   \<and> toLowerCase (js_toString (JNum 4)) \<in> {''3'', ''4'', ''low''}
   \<and> mapPriority (JNum 4) = ''Low''
   \<and> toLowerCase (js_toString (JStr ''unexpected-string''))
        \<notin> {''1'', ''critical'', ''high'', ''2'', ''medium'', ''normal'', ''3'', ''4'', ''low''}
   \<and> mapPriority (JStr ''unexpected-string'') = ''Medium''"
proof -
  note defs = toLowerCase_def lower_char_def int_to_dec_def digit_char_def
  have h1: "toLowerCase (js_toString (JStr ''HIGH'')) \<in> {''1'', ''critical'', ''high''}"
    by (simp add: defs)
  have h2: "toLowerCase (js_toString (JStr ''Normal'')) \<in> {''2'', ''medium'', ''normal''}"
    by (simp add: defs)
  have h3: "toLowerCase (js_toString (JNum 4)) \<in> {''3'', ''4'', ''low''}"
    by (simp add: defs)
  have h4: "toLowerCase (js_toString (JStr ''unexpected-string''))
        \<notin> {''1'', ''critical'', ''high'', ''2'', ''medium'', ''normal'', ''3'', ''4'', ''low''}"
    by (simp add: defs)
  have c1: "mapPriority (JStr ''HIGH'') = ''High''"
    using mapPriority_total [of "JStr ''HIGH''"] by (simp add: defs)
  have c2: "mapPriority (JStr ''Normal'') = ''Medium''"
    using mapPriority_total [of "JStr ''Normal''"] by (simp add: defs)
  have c3: "mapPriority (JNum 4) = ''Low''"
    using mapPriority_total [of "JNum 4"] by (simp add: defs)
  have c4: "mapPriority (JStr ''unexpected-string'') = ''Medium''"
    using mapPriority_total [of "JStr ''unexpected-string''"] by (simp add: defs)
  from h1 c1 h2 c2 h3 c3 h4 c4 show ?thesis by (intro conjI)
qed

section \<open>Pairing by the reference value\<close>

lemma concat_singletons: "concat (map (\<lambda>(a, b). [f b]) xs) = map (\<lambda>(a, b). f b) xs"
  by (induction xs) auto

text \<open>
  Claim C10.  For a requirement that \<open>generateRTM\<close> fetches with linked test cases, a
  test case pairs with criterion \<open>n\<close> only when its reference is the number \<open>n\<close>: every
  Covered row comes from a test case whose reference is the number of a criterion; the
  rows are those computed from the test cases whose reference is not a string, so a test
  case with a string reference ("1", or the empty string of an absent reference)
  contributes no row; a criterion whose number is no test case's reference gives its
  Missing row; and when every reference is a string the rows are the Missing rows of the
  criteria.
\<close>

theorem string_reference_never_pairs:
  assumes "generateRTM e sched userStoryIds = Some (Inr rtmData)"
    and "userStoryId \<noteq> 0" and "count_list userStoryIds userStoryId = 1"
    and "fetchUserStory e userStoryId = Some userStory"
    and "fetchRelatedTestCases e userStoryId = allTestCases" and "allTestCases \<noteq> []"
  shows "(\<forall>r \<in> set (filter (\<lambda>r. UserStoryId r = userStoryId) rtmData).
            Status r = ''Covered'' \<longrightarrow>
              (\<exists>testCase \<in> set allTestCases. \<exists>(acNo, criteria) \<in> set (us_acceptanceCriteria userStory).
                 tc_acceptanceCriteria testCase = JNum (int acNo) \<and> r = covered_row userStoryId userStory testCase))
         \<and> filter (\<lambda>r. UserStoryId r = userStoryId) rtmData =
             concat (map (\<lambda>(acNo, criteria).
                        let grouped = filter (\<lambda>tc. tc_acceptanceCriteria tc = JNum (int acNo))
                                        (filter (\<lambda>tc. \<forall>s. tc_acceptanceCriteria tc \<noteq> JStr s) allTestCases)
                        in if grouped = [] then [missing_row userStoryId userStory criteria]
                           else map (covered_row userStoryId userStory) grouped)
                     (us_acceptanceCriteria userStory))
         \<and> (\<forall>(acNo, criteria) \<in> set (us_acceptanceCriteria userStory).
              (\<forall>testCase \<in> set allTestCases. tc_acceptanceCriteria testCase \<noteq> JNum (int acNo)) \<longrightarrow>
                missing_row userStoryId userStory criteria \<in> set (filter (\<lambda>r. UserStoryId r = userStoryId) rtmData))
         \<and> ((\<forall>testCase \<in> set allTestCases. \<exists>s. tc_acceptanceCriteria testCase = JStr s) \<longrightarrow>
              filter (\<lambda>r. UserStoryId r = userStoryId) rtmData =
                map (\<lambda>(acNo, criteria). missing_row userStoryId userStory criteria) (us_acceptanceCriteria userStory))"
proof -
  let ?rows = "filter (\<lambda>r. UserStoryId r = userStoryId) rtmData"
  let ?entries = "us_acceptanceCriteria userStory"
  let ?group = "\<lambda>acNo. filter (\<lambda>tc. tc_acceptanceCriteria tc = JNum (int acNo)) allTestCases"
  have ent: "Object_entries ?entries = ?entries"
    using fetchUserStory_criteria [OF assms(4)] by simp
  have rows: "?rows = concat (map (\<lambda>(acNo, criteria).
                        if ?group acNo = [] then [missing_row userStoryId userStory criteria]
                        else map (covered_row userStoryId userStory) (?group acNo)) ?entries)"
    using rows_of_story [OF assms(1,2,3)] processUserStory_criteria [OF assms(4,5,6)] ent
    by (simp add: Let_def)
  have grp: "\<And>acNo. filter (\<lambda>tc. tc_acceptanceCriteria tc = JNum (int acNo))
                        (filter (\<lambda>tc. \<forall>s. tc_acceptanceCriteria tc \<noteq> JStr s) allTestCases) = ?group acNo"
    by (auto intro: filter_cong)
  have a: "\<forall>r \<in> set ?rows. Status r = ''Covered'' \<longrightarrow>
              (\<exists>testCase \<in> set allTestCases. \<exists>(acNo, criteria) \<in> set ?entries.
                 tc_acceptanceCriteria testCase = JNum (int acNo) \<and> r = covered_row userStoryId userStory testCase)"
    unfolding rows by (fastforce simp: missing_row_def split: if_splits)
  have b: "?rows = concat (map (\<lambda>(acNo, criteria).
                        let grouped = filter (\<lambda>tc. tc_acceptanceCriteria tc = JNum (int acNo))
                                        (filter (\<lambda>tc. \<forall>s. tc_acceptanceCriteria tc \<noteq> JStr s) allTestCases)
                        in if grouped = [] then [missing_row userStoryId userStory criteria]
                           else map (covered_row userStoryId userStory) grouped) ?entries)"
    unfolding grp Let_def by (rule rows)
  have c: "\<forall>(acNo, criteria) \<in> set ?entries.
              (\<forall>testCase \<in> set allTestCases. tc_acceptanceCriteria testCase \<noteq> JNum (int acNo)) \<longrightarrow>
                missing_row userStoryId userStory criteria \<in> set ?rows"
    unfolding rows by (fastforce simp: filter_empty_conv)
  have d: "(\<forall>testCase \<in> set allTestCases. \<exists>s. tc_acceptanceCriteria testCase = JStr s) \<longrightarrow>
              ?rows = map (\<lambda>(acNo, criteria). missing_row userStoryId userStory criteria) ?entries"
  proof
    assume all: "\<forall>testCase \<in> set allTestCases. \<exists>s. tc_acceptanceCriteria testCase = JStr s"
    then have "\<And>acNo. ?group acNo = []" by (auto simp: filter_empty_conv)
    then have "?rows = concat (map (\<lambda>(acNo, criteria). [missing_row userStoryId userStory criteria]) ?entries)"
      unfolding rows by simp
    also have "\<dots> = map (\<lambda>(acNo, criteria). missing_row userStoryId userStory criteria) ?entries"
      by (rule concat_singletons)
    finally show "?rows = map (\<lambda>(acNo, criteria). missing_row userStoryId userStory criteria) ?entries" .
  qed
  from a b c d show ?thesis by blast
qed

theorem string_reference_never_pairs_witness:
  "generateRTM example_env (seq_schedule 2) [100, 300] =
     Some (Inr [\<lparr> UserStoryId = 100, Feature = JStr ''Login'', ScenarioType = JStr ''Functional'',
                  Description = JStr ''Log in with password'', TestCaseId = JNum 501, Status = ''Covered'',
                  Priority = ''High'', Execution = ''Pass'' \<rparr>,
                \<lparr> UserStoryId = 100, Feature = JStr ''Login'', ScenarioType = JStr ''Functional'',
                  Description = JStr ''can log out'', TestCaseId = JStr '''', Status = ''Missing'',
                  Priority = ''Medium'', Execution = '''' \<rparr>,
                \<lparr> UserStoryId = 300, Feature = JStr ''Logout'', ScenarioType = JStr ''Functional'',
                  Description = JStr ''can log in'', TestCaseId = JStr '''', Status = ''Missing'',
                  Priority = ''Medium'', Execution = '''' \<rparr>,
                \<lparr> UserStoryId = 300, Feature = JStr ''Logout'', ScenarioType = JStr ''Functional'',
                  Description = JStr ''can log out'', TestCaseId = JStr '''', Status = ''Missing'',
                  Priority = ''Medium'', Execution = '''' \<rparr>])
   \<and> map tc_acceptanceCriteria (fetchRelatedTestCases example_env 100) = [JNum 1, JStr ''2'']
   \<and> map tc_acceptanceCriteria (fetchRelatedTestCases example_env 300) = [JStr ''2'']
   \<and> map fst (us_acceptanceCriteria (the (fetchUserStory example_env 300))) = [1, 2]
   \<and> missing_row 100 (the (fetchUserStory example_env 100)) ''can log out''
        \<in> set (filter (\<lambda>r. UserStoryId r = 100) (projr (the (generateRTM example_env (seq_schedule 2) [100, 300]))))
   \<and> filter (\<lambda>r. UserStoryId r = 300) (projr (the (generateRTM example_env (seq_schedule 2) [100, 300])))
        = map (\<lambda>(acNo, criteria). missing_row 300 (the (fetchUserStory example_env 300)) criteria)
            (us_acceptanceCriteria (the (fetchUserStory example_env 300)))"
proof -
  let ?rows = "[\<lparr> UserStoryId = 100, Feature = JStr ''Login'', ScenarioType = JStr ''Functional'',
                  Description = JStr ''Log in with password'', TestCaseId = JNum 501, Status = ''Covered'',
                  Priority = ''High'', Execution = ''Pass'' \<rparr>,
                \<lparr> UserStoryId = 100, Feature = JStr ''Login'', ScenarioType = JStr ''Functional'',
                  Description = JStr ''can log out'', TestCaseId = JStr '''', Status = ''Missing'',
                  Priority = ''Medium'', Execution = '''' \<rparr>,
                \<lparr> UserStoryId = 300, Feature = JStr ''Logout'', ScenarioType = JStr ''Functional'',
                  Description = JStr ''can log in'', TestCaseId = JStr '''', Status = ''Missing'',
                  Priority = ''Medium'', Execution = '''' \<rparr>,
                \<lparr> UserStoryId = 300, Feature = JStr ''Logout'', ScenarioType = JStr ''Functional'',
                  Description = JStr ''can log out'', TestCaseId = JStr '''', Status = ''Missing'',
                  Priority = ''Medium'', Execution = '''' \<rparr>]"
  let ?us1 = "\<lparr> us_id = JNum 100, us_title = JStr ''Login'', us_description = JStr '''',
                us_state = JStr '''', us_priority = JNum 2, us_feature = JStr ''Login'',
                us_tags = JStr '''', us_acceptanceCriteria = [(1, ''can log in''), (2, ''can log out'')] \<rparr>"
  let ?us3 = "\<lparr> us_id = JNum 300, us_title = JStr ''Logout'', us_description = JStr '''',
                us_state = JStr '''', us_priority = JStr ''Medium'', us_feature = JStr ''Logout'',
                us_tags = JStr '''', us_acceptanceCriteria = [(1, ''can log in''), (2, ''can log out'')] \<rparr>"
  let ?tc1 = "\<lparr> tc_id = JNum 501, tc_title = JStr ''Log in with password'', tc_description = JStr '''',
                  tc_state = JStr ''Done'', tc_priority = JNum 1, tc_executionStatus = ''Pass'',
                  tc_steps = JStr '''', tc_acceptanceCriteria = JNum 1, tc_scenarioType = JStr '''' \<rparr>"
  let ?tc2 = "\<lparr> tc_id = JNum 502, tc_title = JStr ''Log out'', tc_description = JStr '''',
                  tc_state = JStr ''Design'', tc_priority = JStr ''Medium'', tc_executionStatus = ''Fail'',
                  tc_steps = JStr '''', tc_acceptanceCriteria = JStr ''2'', tc_scenarioType = JStr '''' \<rparr>"
  have h1: "generateRTM example_env (seq_schedule 2) [100, 300] = Some (Inr ?rows)" by code_simp
  have a2: "(100 :: int) \<noteq> 0" and b2: "(300 :: int) \<noteq> 0" by simp_all
  have a3: "count_list [100, 300 :: int] 100 = 1" and b3: "count_list [100, 300 :: int] 300 = 1" by simp_all
  have a4: "fetchUserStory example_env 100 = Some ?us1" by code_simp
  have b4: "fetchUserStory example_env 300 = Some ?us3" by code_simp
  have a5: "fetchRelatedTestCases example_env 100 = [?tc1, ?tc2]" by code_simp
  have b5: "fetchRelatedTestCases example_env 300 = [?tc2]" by code_simp
  have a6: "[?tc1, ?tc2] \<noteq> []" and b6: "[?tc2] \<noteq> []" by simp_all
  note A = string_reference_never_pairs [OF h1 a2 a3 a4 a5 a6]
  note B = string_reference_never_pairs [OF h1 b2 b3 b4 b5 b6]
  have mem: "(2, ''can log out'') \<in> set (us_acceptanceCriteria ?us1)" by simp
  have no: "\<forall>testCase \<in> set [?tc1, ?tc2]. tc_acceptanceCriteria testCase \<noteq> JNum (int 2)" by simp
  have "case (2 :: nat, ''can log out'') of
          (acNo, criteria) \<Rightarrow>
            (\<forall>testCase \<in> set [?tc1, ?tc2]. tc_acceptanceCriteria testCase \<noteq> JNum (int acNo)) \<longrightarrow>
              missing_row 100 ?us1 criteria \<in> set (filter (\<lambda>r. UserStoryId r = 100) ?rows)"
    by (rule A [THEN conjunct2, THEN conjunct2, THEN conjunct1, THEN bspec, OF mem])
  then have "(\<forall>testCase \<in> set [?tc1, ?tc2]. tc_acceptanceCriteria testCase \<noteq> JNum (int 2)) \<longrightarrow>
              missing_row 100 ?us1 ''can log out'' \<in> set (filter (\<lambda>r. UserStoryId r = 100) ?rows)"
    by (simp only: prod.case)
  then have m: "missing_row 100 ?us1 ''can log out'' \<in> set (filter (\<lambda>r. UserStoryId r = 100) ?rows)"
    using no by (rule mp)
  have allstr: "\<forall>testCase \<in> set [?tc2]. \<exists>s. tc_acceptanceCriteria testCase = JStr s" by simp
  have f: "filter (\<lambda>r. UserStoryId r = 300) ?rows
        = map (\<lambda>(acNo, criteria). missing_row 300 ?us3 criteria) (us_acceptanceCriteria ?us3)"
    by (rule B [THEN conjunct2, THEN conjunct2, THEN conjunct2, THEN mp, OF allstr])
  have g: "map tc_acceptanceCriteria [?tc1, ?tc2] = [JNum 1, JStr ''2'']"
    "map tc_acceptanceCriteria [?tc2] = [JStr ''2'']"
    "map fst (us_acceptanceCriteria ?us3) = [1, 2]"
    by simp_all
  show ?thesis
    unfolding h1 a4 b4 a5 b5 option.sel sum.sel
    using m f g by (intro conjI) (rule refl, assumption+)
qed

end
